theory Spec2Isabelle
  imports Complex_Main "HOL-Library.Multiset"
begin

section \<open>Barcode counting and ranking (illumina.py)\<close>

text \<open>
  A shallow embedding of \<^verbatim>\<open>count_and_sort_barcodes\<close> (illumina.py, lines 519 to 567) and
  of the argument parser of the \<^verbatim>\<open>guess_barcodes\<close> command (lines 573 to 621).

  The function reads one barcode file per tile, has every file counted by a worker
  process, merges the workers' count databases into \<^verbatim>\<open>reduce_db\<close> in the order in which
  the workers complete, and writes the counts in descending order to a TSV file.
  The modules \<^verbatim>\<open>util.file\<close> (\<^verbatim>\<open>CountDB\<close>, \<^verbatim>\<open>count_occurrences_in_tsv_sqlite_backed\<close>)
  and \<^verbatim>\<open>util.illumina_indices\<close> (\<^verbatim>\<open>IlluminaIndexReference\<close>, \<^verbatim>\<open>IlluminaBarcodeHelper\<close>)
  are imported by illumina.py but are not among the source files; what they do is
  either a parameter of the model or a definition marked as modelled from the
  specification.
\<close>

subsection \<open>Python strings and slices\<close>

text \<open>
  \<^verbatim>\<open>sep.join(xs)\<close> of Python.
\<close>

fun str_join :: "string \<Rightarrow> string list \<Rightarrow> string" where
  "str_join sep [] = []"
| "str_join sep [x] = x"
| "str_join sep (x # y # ys) = x @ sep @ str_join sep (y # ys)"

text \<open>
  A slice bound \<^verbatim>\<open>i\<close> on a sequence of length \<^verbatim>\<open>n\<close>: a negative bound counts from the
  end, and every bound is clipped to the range from 0 to \<^verbatim>\<open>n\<close>.
\<close>

definition slice_bound :: "int \<Rightarrow> nat \<Rightarrow> nat" where
  "slice_bound i n = (if i < 0 then nat (int n + i) else min (nat i) n)"

text \<open>
  \<^verbatim>\<open>s[:i]\<close> and \<^verbatim>\<open>s[i:len(s)]\<close>.
\<close>

definition slice_to :: "string \<Rightarrow> int \<Rightarrow> string" where
  "slice_to s i = take (slice_bound i (length s)) s"

definition slice_from :: "string \<Rightarrow> int \<Rightarrow> string" where
  "slice_from s i = drop (slice_bound i (length s)) s"

subsection \<open>The summary writer\<close>

text \<open>
  A value handed to \<^verbatim>\<open>csv.writer.writerow\<close>: a string or an integer count. A row is the
  tuple of cells of one \<^verbatim>\<open>writerow\<close> call, and the summary file is the list of rows in the
  order written.
\<close>

datatype cell = Text string | Number nat

type_synonym row = "cell list"

definition header_row :: row where
  "header_row = [Text ''Barcode1'', Text ''Likely_Index_Names1'', Text ''Barcode2'',
                 Text ''Likely_Index_Names2'', Text ''Count'']"

text \<open>
  \<^verbatim>\<open>",".join([x for x in illumina_reference.guess_index(seg, distance=1)] or ["Unknown"])\<close>.
  The lookup \<^verbatim>\<open>guess_index\<close> of the reference-index collaborator is the parameter \<open>guess_index\<close>:
  it takes the segment and the distance and returns the list of index names.
\<close>

definition likely_index_names :: "(string \<Rightarrow> nat \<Rightarrow> string list) \<Rightarrow> string \<Rightarrow> string" where
  "likely_index_names guess_index seg =
     str_join '','' (let names = guess_index seg 1 in if names = [] then [''Unknown''] else names)"

text \<open>
  The tuple written for one \<^verbatim>\<open>(barcode, count)\<close> row (lines 558 to 562).
\<close>

definition summary_row :: "(string \<Rightarrow> nat \<Rightarrow> string list) \<Rightarrow> int \<Rightarrow> string \<times> nat \<Rightarrow> row" where
  "summary_row guess_index barcode1_len r =
     (case r of (barcode, cnt) \<Rightarrow>
        [Text (slice_to barcode barcode1_len),
         Text (likely_index_names guess_index (slice_to barcode barcode1_len)),
         Text (slice_from barcode barcode1_len),
         Text (likely_index_names guess_index (slice_from barcode barcode1_len)),
         Number cnt])"

text \<open>
  The test \<^verbatim>\<open>truncateToLength and num_processed>truncateToLength\<close> of line 555:
  \<^verbatim>\<open>None\<close> and 0 are false in Python.
\<close>

definition stop_writing :: "int option \<Rightarrow> nat \<Rightarrow> bool" where
  "stop_writing truncateToLength num_processed =
     (case truncateToLength of
        None \<Rightarrow> False
      | Some n \<Rightarrow> n \<noteq> 0 \<and> int num_processed > n)"

text \<open>
  The loop of lines 553 to 565 over \<^verbatim>\<open>enumerate(reduce_db.get_counts_descending())\<close>,
  from the index \<open>num_processed\<close> on: it breaks at the first index for which the test
  holds and writes one row per index before that.
\<close>

fun write_rows ::
  "(string \<Rightarrow> nat \<Rightarrow> string list) \<Rightarrow> int \<Rightarrow> int option \<Rightarrow> nat \<Rightarrow> (string \<times> nat) list \<Rightarrow> row list" where
  "write_rows guess_index barcode1_len truncateToLength num_processed [] = []"
| "write_rows guess_index barcode1_len truncateToLength num_processed (r # rest) =
     (if stop_writing truncateToLength num_processed then []
      else summary_row guess_index barcode1_len r
             # write_rows guess_index barcode1_len truncateToLength (Suc num_processed) rest)"

text \<open>
  The block \<^verbatim>\<open>with open(outSummary, 'w') as tsvfile\<close> (lines 545 to 565): the header
  unless \<^verbatim>\<open>omitHeader\<close>, then the data rows. \<open>counts_descending\<close> is what
  \<^verbatim>\<open>reduce_db.get_counts_descending()\<close> yields.
\<close>

definition write_summary ::
  "(string \<Rightarrow> nat \<Rightarrow> string list) \<Rightarrow> int \<Rightarrow> int option \<Rightarrow> bool \<Rightarrow> (string \<times> nat) list \<Rightarrow> row list" where
  "write_summary guess_index barcode1_len truncateToLength omitHeader counts_descending =
     (if \<not> omitHeader then [header_row] else [])
       @ write_rows guess_index barcode1_len truncateToLength 0 counts_descending"

text \<open>
  The data rows of a summary file: all rows but the header.
\<close>

definition data_rows :: "bool \<Rightarrow> row list \<Rightarrow> row list" where
  "data_rows omitHeader out = (if omitHeader then out else tl out)"

text \<open>
  The count in the last column of a data row.
\<close>

fun row_count :: "row \<Rightarrow> nat" where
  "row_count [_, _, _, _, Number c] = c"
| "row_count _ = 0"

text \<open>
  The barcode of a data row: its two segments put together again.
\<close>

fun row_barcode :: "row \<Rightarrow> string" where
  "row_barcode [Text a, _, Text b, _, _] = a @ b"
| "row_barcode _ = []"

text \<open>
  The rows of \<open>counts_descending\<close> for which the loop writes a row: all of them when
  \<^verbatim>\<open>truncateToLength\<close> is \<^verbatim>\<open>None\<close> or 0, and otherwise those at the indices 0 to
  \<^verbatim>\<open>truncateToLength\<close> (lemma \<open>write_rows_kept\<close> below).
\<close>

definition rows_kept :: "int option \<Rightarrow> (string \<times> nat) list \<Rightarrow> (string \<times> nat) list" where
  "rows_kept truncateToLength rows =
     (case truncateToLength of
        None \<Rightarrow> rows
      | Some N \<Rightarrow> if N = 0 then rows else take (nat (N + 1)) rows)"

subsection \<open>count_and_sort_barcodes\<close>

text \<open>
  What \<^verbatim>\<open>count_and_sort_barcodes\<close> calls in \<^verbatim>\<open>util.file\<close>, a module that is not among the
  source files: the constructor of an empty \<^verbatim>\<open>CountDB\<close>, the worker function, which
  takes \<^verbatim>\<open>include_noise\<close> and a tile file (the list of its lines) and returns its count
  database, and the two methods of \<^verbatim>\<open>CountDB\<close> that the body calls. \<open>'db\<close> is the type of
  a count database. The source's worker also returns the path of the file it read,
  which the caller only logs.
\<close>

record 'db util_file =
  CountDB :: 'db
  count_occurrences_in_tsv_sqlite_backed :: "bool \<Rightarrow> string list \<Rightarrow> 'db"
  add_counts_from_other_db :: "'db \<Rightarrow> 'db \<Rightarrow> 'db"
  get_counts_descending :: "'db \<Rightarrow> (string \<times> nat) list"

text \<open>
  Lines 526 to 538: one future per tile file, and every result merged into
  \<^verbatim>\<open>reduce_db\<close>, which starts empty, as the futures complete.
  \<^verbatim>\<open>concurrent.futures.as_completed\<close> yields the futures in an order that the scheduler
  decides; it is the parameter \<open>as_completed\<close>, a function from the list of the futures'
  results to the same results in completion order. The model covers the runs in which
  no worker raises.
\<close>

definition reduce_db ::
  "'db util_file \<Rightarrow> ('db list \<Rightarrow> 'db list) \<Rightarrow> bool \<Rightarrow> string list list \<Rightarrow> 'db" where
  "reduce_db file as_completed includeNoise tile_barcode_files =
     fold (\<lambda>tmp_db db. add_counts_from_other_db file db tmp_db)
          (as_completed
             (map (count_occurrences_in_tsv_sqlite_backed file includeNoise) tile_barcode_files))
          (CountDB file)"

text \<open>
  \<^verbatim>\<open>count_and_sort_barcodes\<close> (lines 519 to 567). \<open>tile_barcode_files\<close> stands for the
  files of \<^verbatim>\<open>barcodes_dir\<close>, the result for the rows written to \<^verbatim>\<open>outSummary\<close>. The
  body reads \<^verbatim>\<open>threads\<close> for the size of the worker pool only, and does not read
  \<^verbatim>\<open>barcode2_len\<close>.
\<close>

definition count_and_sort_barcodes ::
  "'db util_file \<Rightarrow> ('db list \<Rightarrow> 'db list) \<Rightarrow> (string \<Rightarrow> nat \<Rightarrow> string list) \<Rightarrow> string list list
     \<Rightarrow> int \<Rightarrow> int \<Rightarrow> int option \<Rightarrow> bool \<Rightarrow> bool \<Rightarrow> int option \<Rightarrow> row list" where
  "count_and_sort_barcodes file as_completed guess_index tile_barcode_files
       barcode1_len barcode2_len truncateToLength includeNoise omitHeader threads =
     write_summary guess_index barcode1_len truncateToLength omitHeader
       (get_counts_descending file (reduce_db file as_completed includeNoise tile_barcode_files))"

subsection \<open>The count index and the counting worker, from the specification\<close>

text \<open>
  Modelled from the spec: \<^verbatim>\<open>util.file.CountDB\<close> is not among the source files. The spec's
  CountIndex is a persistent mapping from a barcode string to an integer count, with
  the barcode string as the unique key. It is held here as an association list in
  insertion order, so that the order in which the index is iterated depends on the
  order in which the keys arrived, as the storage order of a database table may.
\<close>

type_synonym count_index = "(string \<times> nat) list"

text \<open>
  Modelled from the spec: the upsert of the merge step, missing with \<^verbatim>\<open>CountDB\<close>: add a
  count to the running total for a key, insert the key if it is new.
\<close>

fun add_count :: "string \<Rightarrow> nat \<Rightarrow> count_index \<Rightarrow> count_index" where
  "add_count k n [] = [(k, n)]"
| "add_count k n ((k', c) # db) =
     (if k = k' then (k', c + n) # db else (k', c) # add_count k n db)"

text \<open>
  Modelled from the spec: \<^verbatim>\<open>merge_from(other)\<close>, the \<^verbatim>\<open>add_counts_from_other_db\<close> that is
  missing with \<^verbatim>\<open>CountDB\<close>. For every barcode key present in the worker index, add its
  count to the running total for that key (insert if new).
\<close>

definition merge_from :: "count_index \<Rightarrow> count_index \<Rightarrow> count_index" where
  "merge_from db other = fold (\<lambda>(k, n). add_count k n) other db"

text \<open>
  Modelled from the spec: \<^verbatim>\<open>iter_sorted_desc()\<close>, the \<^verbatim>\<open>get_counts_descending\<close> that is
  missing with \<^verbatim>\<open>CountDB\<close>. It iterates the entries of the index in descending count
  order; entries with equal counts stay in the order of the index.
\<close>

definition iter_sorted_desc :: "count_index \<Rightarrow> (string \<times> nat) list" where
  "iter_sorted_desc db = sort_key (\<lambda>r. - int (snd r)) db"

text \<open>
  The count an index holds for a barcode, \<open>None\<close> for a barcode that is not a key.
\<close>

definition lookup_count :: "count_index \<Rightarrow> string \<Rightarrow> nat option" where
  "lookup_count db barcode = map_of db barcode"

text \<open>
  Modelled from the spec: the barcode field of a line of a tile file is its first
  tab-delimited field, and a noise barcode is one that contains the no-call
  placeholder, a period (the help text of \<^verbatim>\<open>--includeNoise\<close>, line 432, names the period).
\<close>

definition barcode_field :: "string \<Rightarrow> string" where
  "barcode_field line = takeWhile (\<lambda>c. c \<noteq> CHR 0x09) line"

definition is_noise :: "string \<Rightarrow> bool" where
  "is_noise barcode = (CHR ''.'' \<in> set barcode)"

text \<open>
  Modelled from the spec: a line is counted unless its barcode is a noise barcode and
  \<^verbatim>\<open>include_noise\<close> is false.
\<close>

definition counted :: "bool \<Rightarrow> string \<Rightarrow> bool" where
  "counted include_noise line = (include_noise \<or> \<not> is_noise (barcode_field line))"

text \<open>
  Modelled from the spec: the per-tile counting worker, the
  \<^verbatim>\<open>util.file.count_occurrences_in_tsv_sqlite_backed\<close> that is missing. A worker streams
  its tile file line by line, extracts the barcode field, skips noise lines unless
  \<^verbatim>\<open>include_noise\<close>, and increments a local count index keyed by the full barcode string.
\<close>

definition counting_worker :: "bool \<Rightarrow> string list \<Rightarrow> count_index" where
  "counting_worker include_noise tile_lines =
     fold (\<lambda>line db. if counted include_noise line then add_count (barcode_field line) 1 db else db)
          tile_lines []"

text \<open>
  Modelled from the spec: the module \<^verbatim>\<open>util.file\<close> as the specification describes it.
\<close>

definition spec_util_file :: "count_index util_file" where
  "spec_util_file =
     \<lparr> CountDB = [],
       count_occurrences_in_tsv_sqlite_backed = counting_worker,
       add_counts_from_other_db = merge_from,
       get_counts_descending = iter_sorted_desc \<rparr>"

text \<open>
  Auxiliary readings of an index, used in the proofs: the count held for a barcode
  with 0 for a barcode that is not a key, the sum of the counts of all entries for a
  barcode, and the set of keys. The tally of a barcode in a list of lines is the
  number of counted lines with that barcode field.
\<close>

definition cnt :: "count_index \<Rightarrow> string \<Rightarrow> nat" where
  "cnt db b = (case map_of db b of None \<Rightarrow> 0 | Some c \<Rightarrow> c)"

definition tot :: "count_index \<Rightarrow> string \<Rightarrow> nat" where
  "tot db b = sum_list (map snd (filter (\<lambda>e. fst e = b) db))"

definition index_keys :: "count_index \<Rightarrow> string set" where
  "index_keys db = fst ` set db"

definition tally :: "bool \<Rightarrow> string list \<Rightarrow> string \<Rightarrow> nat" where
  "tally include_noise ls b =
     length (filter (\<lambda>line. counted include_noise line \<and> barcode_field line = b) ls)"

section \<open>The guess_barcodes command\<close>

subsection \<open>The argument parser\<close>

text \<open>
  How a run of the command can end in an error. A conflict between the members of a
  mutually exclusive group makes argparse call \<^verbatim>\<open>parser.error\<close>, which prints the usage
  message and raises \<^verbatim>\<open>SystemExit(2)\<close>. \<open>ConfigurationError\<close> is the error kind the
  specification names; no source file defines or raises it.
\<close>

datatype error = SystemExit int | ConfigurationError

text \<open>
  What the user wrote on the command line: the three positional arguments and, for
  every option, \<open>None\<close> when the option is absent and its converted value when it is
  present. The two float options are held as the decimal value written; the parser
  does no arithmetic on them.
\<close>

record command_line =
  cl_in_barcodes :: string
  cl_in_picard_metrics :: string
  cl_out_summary_tsv :: string
  cl_readcount_threshold :: "int option"
  cl_sample_names :: "string list option"
  cl_outlier_threshold :: "rat option"
  cl_expected_assigned_fraction :: "rat option"
  cl_number_of_negative_controls :: "int option"
  cl_neg_control_prefixes :: "string list option"
  cl_rows_limit :: "int option"

text \<open>
  The namespace that \<^verbatim>\<open>parse_args\<close> returns and that \<^verbatim>\<open>main_guess_barcodes\<close> receives
  as keyword arguments.
\<close>

record guess_barcodes_args =
  in_barcodes :: string
  in_picard_metrics :: string
  out_summary_tsv :: string
  readcount_threshold :: "int option"
  sample_names :: "string list option"
  outlier_threshold :: rat
  expected_assigned_fraction :: rat
  number_of_negative_controls :: "int option"
  neg_control_prefixes :: "string list"
  rows_limit :: int

text \<open>
  \<^verbatim>\<open>parser_guess_barcodes\<close> (lines 573 to 621) applied to a command line. The first
  group (lines 586 to 595) holds \<^verbatim>\<open>--readcount_threshold\<close> and \<^verbatim>\<open>--sample_names\<close>, the
  second (lines 604 to 612) \<^verbatim>\<open>--number_of_negative_controls\<close> and
  \<^verbatim>\<open>--neg_control_prefixes\<close>; \<^verbatim>\<open>--outlier_threshold\<close> is in no group. An absent option
  takes its default.
\<close>

definition parser_guess_barcodes :: "command_line \<Rightarrow> error + guess_barcodes_args" where
  "parser_guess_barcodes cl =
     (if cl_readcount_threshold cl \<noteq> None \<and> cl_sample_names cl \<noteq> None then Inl (SystemExit 2)
      else if cl_number_of_negative_controls cl \<noteq> None \<and> cl_neg_control_prefixes cl \<noteq> None
        then Inl (SystemExit 2)
      else Inr \<lparr>
        in_barcodes = cl_in_barcodes cl,
        in_picard_metrics = cl_in_picard_metrics cl,
        out_summary_tsv = cl_out_summary_tsv cl,
        readcount_threshold = cl_readcount_threshold cl,
        sample_names = cl_sample_names cl,
        outlier_threshold = (case cl_outlier_threshold cl of None \<Rightarrow> 775 / 1000 | Some t \<Rightarrow> t),
        expected_assigned_fraction =
          (case cl_expected_assigned_fraction cl of None \<Rightarrow> 7 / 10 | Some f \<Rightarrow> f),
        number_of_negative_controls = cl_number_of_negative_controls cl,
        neg_control_prefixes =
          (case cl_neg_control_prefixes cl of
             None \<Rightarrow> [''neg'', ''water'', ''NTC'', ''H2O'']
           | Some ps \<Rightarrow> ps),
        rows_limit = (case cl_rows_limit cl of None \<Rightarrow> 1000 | Some n \<Rightarrow> n) \<rparr>)"

text \<open>
  The sample-selection mode that a namespace stands for, as the docstring of
  \<^verbatim>\<open>main_guess_barcodes\<close> (lines 645 to 650) lists them: by name, by read count
  threshold, or automatic when names and threshold are omitted.
\<close>

datatype selection_mode = ByName | ByReadCount | Automatic

definition selection_modes :: "guess_barcodes_args \<Rightarrow> selection_mode list" where
  "selection_modes a =
     (if sample_names a \<noteq> None then [ByName] else [])
       @ (if readcount_threshold a \<noteq> None then [ByReadCount] else [])
       @ (if sample_names a = None \<and> readcount_threshold a = None then [Automatic] else [])"

subsection \<open>The guess for one sample (util.illumina_indices)\<close>

text \<open>
  Modelled from the spec: \<^verbatim>\<open>IlluminaBarcodeHelper\<close> and its \<^verbatim>\<open>find_uncertain_barcodes\<close>
  are not among the source files. A row of the ranked barcode table, the expectation
  for a sample from the demultiplexing metrics, and the guess for a sample.
\<close>

record ranked_barcode =
  barcode_1 :: string
  likely_names_1 :: string
  barcode_2 :: string
  likely_names_2 :: string
  read_count :: nat

record sample_expectation =
  sample_name :: string
  expected_barcode_1 :: string
  expected_barcode_2 :: string
  expected_read_count :: nat

datatype match_type = Exact | Partial | NoMatch

record guess_result =
  guessed_barcode_1 :: string
  guessed_barcode_2 :: string
  guessed_read_count :: nat
  guess_match_type :: match_type

text \<open>
  Modelled from the spec: the novel barcode pairs are the rows of the ranked table,
  cut to its first \<^verbatim>\<open>rows_limit\<close> rows, whose barcode pair does not exactly match any
  expected barcode pair of the metrics.
\<close>

definition novel_barcode_pairs ::
  "nat \<Rightarrow> sample_expectation list \<Rightarrow> ranked_barcode list \<Rightarrow> ranked_barcode list" where
  "novel_barcode_pairs limit metrics table =
     filter (\<lambda>r. (barcode_1 r, barcode_2 r)
                   \<notin> set (map (\<lambda>s. (expected_barcode_1 s, expected_barcode_2 s)) metrics))
            (take limit table)"

text \<open>
  Modelled from the spec: a partial match is a novel pair sharing exactly one barcode
  (either position) with the sample's expected pair.
\<close>

definition partial_match :: "sample_expectation \<Rightarrow> ranked_barcode \<Rightarrow> bool" where
  "partial_match s r =
     ((barcode_1 r = expected_barcode_1 s) \<noteq> (barcode_2 r = expected_barcode_2 s))"

text \<open>
  Modelled from the spec: the most abundant row of a list, the first of them where
  several rows share the highest count; \<open>None\<close> for the empty list.
\<close>

fun most_abundant :: "ranked_barcode list \<Rightarrow> ranked_barcode option" where
  "most_abundant [] = None"
| "most_abundant (r # rs) =
     (case most_abundant rs of
        None \<Rightarrow> Some r
      | Some m \<Rightarrow> if read_count r < read_count m then Some m else Some r)"

text \<open>
  Modelled from the spec: step 3 of the guesser for one flagged sample. The most
  abundant partial match if there is one, with match type \<^verbatim>\<open>partial\<close>; if no partial
  match exists, the single most abundant novel pair overall; \<open>None\<close> (none found) if
  there is no novel pair.
\<close>

definition guess_for_sample :: "ranked_barcode list \<Rightarrow> sample_expectation \<Rightarrow> guess_result option" where
  "guess_for_sample novel s =
     (case most_abundant (filter (partial_match s) novel) of
        Some r \<Rightarrow> Some \<lparr> guessed_barcode_1 = barcode_1 r, guessed_barcode_2 = barcode_2 r,
                          guessed_read_count = read_count r, guess_match_type = Partial \<rparr>
      | None \<Rightarrow>
          (case most_abundant novel of
             Some r \<Rightarrow> Some \<lparr> guessed_barcode_1 = barcode_1 r, guessed_barcode_2 = barcode_2 r,
                               guessed_read_count = read_count r, guess_match_type = NoMatch \<rparr>
           | None \<Rightarrow> None))"

section \<open>A worked example\<close>

text \<open>
  Three tile files with seven lines, one of them a noise line; a reference lookup that
  knows the segment \<^verbatim>\<open>AAAA\<close> under one name and the segment \<^verbatim>\<open>GGGG\<close> under two; and two
  command lines of \<^verbatim>\<open>guess_barcodes\<close>, one naming samples only and one that also gives a
  read count threshold.
\<close>

definition example_tile_files :: "string list list" where
  "example_tile_files =
     [[''AAAATTTT'', ''CCCCGGGG'', ''AAAATTTT''],
      [''AAAA.TTT'', ''AAAATTTT''],
      [''CCCCGGGG'', ''GGGGAAAA'']]"

definition example_guess_index :: "string \<Rightarrow> nat \<Rightarrow> string list" where
  "example_guess_index seg distance =
     (if seg = ''AAAA'' then [''N701'']
      else if seg = ''GGGG'' then [''N702'', ''S502'']
      else [])"

definition example_names_only :: command_line where
  "example_names_only =
     \<lparr> cl_in_barcodes = ''barcodes.tsv'', cl_in_picard_metrics = ''metrics.txt'',
       cl_out_summary_tsv = ''guesses.tsv'',
       cl_readcount_threshold = None, cl_sample_names = Some [''sample1''],
       cl_outlier_threshold = None, cl_expected_assigned_fraction = None,
       cl_number_of_negative_controls = None, cl_neg_control_prefixes = None,
       cl_rows_limit = None \<rparr>"

definition example_names_and_threshold :: command_line where
  "example_names_and_threshold = example_names_only \<lparr> cl_readcount_threshold := Some 1000 \<rparr>"

text \<open>
  The scenario of the specification for the guesser: a sample expected under the pair
  (X, Y), another sample that was read under its expected pair, and a ranked table with
  the novel pairs (W, V), count 200, and (X, Z), count 50.
\<close>

definition example_sample :: sample_expectation where
  "example_sample =
     \<lparr> sample_name = ''sample1'', expected_barcode_1 = ''X'', expected_barcode_2 = ''Y'',
       expected_read_count = 3 \<rparr>"

definition example_metrics :: "sample_expectation list" where
  "example_metrics =
     [example_sample,
      \<lparr> sample_name = ''sample2'', expected_barcode_1 = ''P'', expected_barcode_2 = ''Q'',
        expected_read_count = 900 \<rparr>]"

definition example_table :: "ranked_barcode list" where
  "example_table =
     [\<lparr> barcode_1 = ''P'', likely_names_1 = ''Unknown'', barcode_2 = ''Q'',
        likely_names_2 = ''Unknown'', read_count = 900 \<rparr>,
      \<lparr> barcode_1 = ''W'', likely_names_1 = ''Unknown'', barcode_2 = ''V'',
        likely_names_2 = ''Unknown'', read_count = 200 \<rparr>,
      \<lparr> barcode_1 = ''X'', likely_names_1 = ''Unknown'', barcode_2 = ''Z'',
        likely_names_2 = ''Unknown'', read_count = 50 \<rparr>]"

section \<open>Properties of the summary writer\<close>

lemma write_rows_eq:
  "write_rows gi b1 t n rows =
     map (summary_row gi b1)
       (case t of None \<Rightarrow> rows
        | Some N \<Rightarrow> if N = 0 then rows else take (nat (N + 1) - n) rows)"
proof (induction rows arbitrary: n)
  case Nil
  show ?case by (simp split: option.splits)
next
  case (Cons r rest)
  show ?case
  proof (cases t)
    case None
    with Cons show ?thesis by (simp add: stop_writing_def)
  next
    case (Some N)
    show ?thesis
    proof (cases "N = 0")
      case True
      with Some Cons show ?thesis by (simp add: stop_writing_def)
    next
      case False
      show ?thesis
      proof (cases "int n > N")
        case True
        then have "nat (N + 1) - n = 0" by simp
        with True False Some show ?thesis by (simp add: stop_writing_def)
      next
        case nle: False
        then have "nat (N + 1) - n = Suc (nat (N + 1) - Suc n)" by linarith
        with nle False Some Cons show ?thesis by (simp add: stop_writing_def)
      qed
    qed
  qed
qed

lemma write_rows_kept: "write_rows gi b1 t 0 rows = map (summary_row gi b1) (rows_kept t rows)"
  by (simp add: write_rows_eq rows_kept_def split: option.splits)

lemma data_rows_write_summary:
  "data_rows oh (write_summary gi b1 t oh rows) = write_rows gi b1 t 0 rows"
  by (simp add: data_rows_def write_summary_def)

lemma data_rows_count_and_sort:
  "data_rows oh (count_and_sort_barcodes file ac gi tiles b1 b2 t noise oh th) =
     map (summary_row gi b1) (rows_kept t (get_counts_descending file (reduce_db file ac noise tiles)))"
  by (simp add: count_and_sort_barcodes_def data_rows_write_summary write_rows_kept)

lemma rows_kept_prefix: "\<exists>k. rows_kept t rows = take k rows"
proof (cases t)
  case None
  then have "rows_kept t rows = take (length rows) rows" by (simp add: rows_kept_def)
  then show ?thesis ..
next
  case (Some N)
  show ?thesis
  proof (cases "N = 0")
    case True
    with Some have "rows_kept t rows = take (length rows) rows" by (simp add: rows_kept_def)
    then show ?thesis ..
  next
    case False
    with Some have "rows_kept t rows = take (nat (N + 1)) rows" by (simp add: rows_kept_def)
    then show ?thesis ..
  qed
qed

lemma set_rows_kept: "set (rows_kept t rows) \<subseteq> set rows"
proof -
  obtain k where "rows_kept t rows = take k rows" using rows_kept_prefix by blast
  then show ?thesis by (simp add: set_take_subset)
qed

lemma row_count_summary_row: "row_count (summary_row gi b1 r) = snd r"
  by (cases r) (simp add: summary_row_def)

lemma count_column: "map row_count (map (summary_row gi b1) rows) = map snd rows"
  by (simp add: row_count_summary_row cong: map_cong)

lemma sorted_desc_rev_sort:
  fixes xs :: "nat list"
  assumes "sorted_wrt (\<ge>) xs"
  shows "rev (sort xs) = xs"
proof -
  have "sorted (rev xs)" using assms by (simp add: sorted_wrt_rev)
  then have "sort (rev xs) = rev xs" by (rule sorted_sort_id)
  moreover have "sort (rev xs) = sort xs" by (rule properties_for_sort) simp_all
  ultimately show ?thesis by (metis rev_rev_ident)
qed

lemma likely_index_names_eq:
  "likely_index_names gi seg = (if gi seg 1 = [] then ''Unknown'' else str_join '','' (gi seg 1))"
  by (simp add: likely_index_names_def Let_def)

text \<open>
  Claim C8 (likely-name lookup). Every data row that \<^verbatim>\<open>count_and_sort_barcodes\<close> writes
  comes from an entry \<^verbatim>\<open>(barcode, count)\<close> of the descending iteration of \<^verbatim>\<open>reduce_db\<close>.
  Its first and third cells are the two segments of the barcode, and the cell after
  each segment is the comma-joined list of the names that the reference lookup
  \<^verbatim>\<open>guess_index\<close> returns for that segment at distance 1, or the literal \<^verbatim>\<open>Unknown\<close> when the
  lookup returns no name. When the lookup returns exactly one name, the cell is that
  name. This holds for every implementation of \<^verbatim>\<open>util.file\<close> and of the lookup.
\<close>

theorem likely_name_lookup:
  assumes "r \<in> set (data_rows omitHeader
             (count_and_sort_barcodes file as_completed guess_index tile_barcode_files
                barcode1_len barcode2_len truncateToLength includeNoise omitHeader threads))"
  shows "\<exists>barcode cnt.
           (barcode, cnt) \<in> set (get_counts_descending file
                                   (reduce_db file as_completed includeNoise tile_barcode_files))
         \<and> r = [Text (slice_to barcode barcode1_len),
                 Text (if guess_index (slice_to barcode barcode1_len) 1 = [] then ''Unknown''
                       else str_join '','' (guess_index (slice_to barcode barcode1_len) 1)),
                 Text (slice_from barcode barcode1_len),
                 Text (if guess_index (slice_from barcode barcode1_len) 1 = [] then ''Unknown''
                       else str_join '','' (guess_index (slice_from barcode barcode1_len) 1)),
                 Number cnt]
         \<and> (\<forall>name. guess_index (slice_to barcode barcode1_len) 1 = [name] \<longrightarrow> r ! 1 = Text name)
         \<and> (\<forall>name. guess_index (slice_from barcode barcode1_len) 1 = [name] \<longrightarrow> r ! 3 = Text name)"
proof -
  from assms obtain br where br: "br \<in> set (rows_kept truncateToLength
        (get_counts_descending file (reduce_db file as_completed includeNoise tile_barcode_files)))"
    and r: "r = summary_row guess_index barcode1_len br"
    by (auto simp: data_rows_count_and_sort)
  obtain barcode cnt where bc: "br = (barcode, cnt)" by (cases br)
  from br bc set_rows_kept have mem: "(barcode, cnt) \<in> set (get_counts_descending file
        (reduce_db file as_completed includeNoise tile_barcode_files))" by blast
  from r bc have row: "r = [Text (slice_to barcode barcode1_len),
                 Text (if guess_index (slice_to barcode barcode1_len) 1 = [] then ''Unknown''
                       else str_join '','' (guess_index (slice_to barcode barcode1_len) 1)),
                 Text (slice_from barcode barcode1_len),
                 Text (if guess_index (slice_from barcode barcode1_len) 1 = [] then ''Unknown''
                       else str_join '','' (guess_index (slice_from barcode barcode1_len) 1)),
                 Number cnt]"
    by (simp add: summary_row_def likely_index_names_eq del: One_nat_def)
  from row have s1: "\<forall>name. guess_index (slice_to barcode barcode1_len) 1 = [name] \<longrightarrow> r ! 1 = Text name"
    by (simp del: One_nat_def)
  from row have s2: "\<forall>name. guess_index (slice_from barcode barcode1_len) 1 = [name] \<longrightarrow> r ! 3 = Text name"
    by (simp del: One_nat_def add: numeral_3_eq_3)
  show ?thesis
    by (rule exI [of _ barcode], rule exI [of _ cnt]) (use mem row s1 s2 in blast)
qed

text \<open>
  Claim C9 (ranked output ordering). When \<^verbatim>\<open>get_counts_descending\<close> yields the entries
  of \<^verbatim>\<open>reduce_db\<close> in descending order of count, the Count column of the data rows
  written by \<^verbatim>\<open>count_and_sort_barcodes\<close> is in descending order, and it is a prefix of
  the descending sort of the counts, so it depends on the counts alone and not on how
  entries with equal counts are ordered. Unless \<^verbatim>\<open>omitHeader\<close> is set, the first row is
  the header and the data rows follow it.
\<close>

theorem ranked_output_ordering:
  assumes "sorted_wrt (\<ge>) (map snd (get_counts_descending file
             (reduce_db file as_completed includeNoise tile_barcode_files)))"
  shows "sorted_wrt (\<ge>) (map row_count (data_rows omitHeader
            (count_and_sort_barcodes file as_completed guess_index tile_barcode_files
               barcode1_len barcode2_len truncateToLength includeNoise omitHeader threads)))
       \<and> (\<exists>k. map row_count (data_rows omitHeader
            (count_and_sort_barcodes file as_completed guess_index tile_barcode_files
               barcode1_len barcode2_len truncateToLength includeNoise omitHeader threads))
           = take k (rev (sort (map snd (get_counts_descending file
               (reduce_db file as_completed includeNoise tile_barcode_files))))))
       \<and> (\<not> omitHeader \<longrightarrow>
            count_and_sort_barcodes file as_completed guess_index tile_barcode_files
               barcode1_len barcode2_len truncateToLength includeNoise omitHeader threads
            = header_row # data_rows omitHeader
               (count_and_sort_barcodes file as_completed guess_index tile_barcode_files
                  barcode1_len barcode2_len truncateToLength includeNoise omitHeader threads))"
proof -
  let ?rows = "get_counts_descending file (reduce_db file as_completed includeNoise tile_barcode_files)"
  obtain k where k: "rows_kept truncateToLength ?rows = take k ?rows"
    using rows_kept_prefix by blast
  have col: "map row_count (data_rows omitHeader
            (count_and_sort_barcodes file as_completed guess_index tile_barcode_files
               barcode1_len barcode2_len truncateToLength includeNoise omitHeader threads))
        = take k (map snd ?rows)"
    by (simp add: data_rows_count_and_sort k row_count_summary_row take_map)
  have s: "sorted_wrt (\<ge>) (take k (map snd ?rows))"
    using assms by (rule sorted_wrt_take)
  have d: "rev (sort (map snd ?rows)) = map snd ?rows"
    using assms by (rule sorted_desc_rev_sort)
  have h: "\<not> omitHeader \<longrightarrow>
            count_and_sort_barcodes file as_completed guess_index tile_barcode_files
               barcode1_len barcode2_len truncateToLength includeNoise omitHeader threads
            = header_row # data_rows omitHeader
               (count_and_sort_barcodes file as_completed guess_index tile_barcode_files
                  barcode1_len barcode2_len truncateToLength includeNoise omitHeader threads)"
    by (simp add: count_and_sort_barcodes_def write_summary_def data_rows_def)
  from col s have A: "sorted_wrt (\<ge>) (map row_count (data_rows omitHeader
            (count_and_sort_barcodes file as_completed guess_index tile_barcode_files
               barcode1_len barcode2_len truncateToLength includeNoise omitHeader threads)))"
    by simp
  from col d have B: "\<exists>k. map row_count (data_rows omitHeader
            (count_and_sort_barcodes file as_completed guess_index tile_barcode_files
               barcode1_len barcode2_len truncateToLength includeNoise omitHeader threads))
           = take k (rev (sort (map snd ?rows)))"
    by auto
  from A B h show ?thesis by (intro conjI)
qed

text \<open>
  Claim C10 (the output does not depend on \<^verbatim>\<open>barcode2_len\<close>). Two runs of
  \<^verbatim>\<open>count_and_sort_barcodes\<close> that differ in \<^verbatim>\<open>barcode2_len\<close> only write the same rows. The
  third cell of every data row is the slice \<^verbatim>\<open>barcode[barcode1_len:len(barcode)]\<close> of
  the row's barcode, which for a non-negative \<^verbatim>\<open>barcode1_len\<close> is the whole remainder of
  the barcode after its first \<^verbatim>\<open>barcode1_len\<close> characters.
\<close>

theorem barcode2_len_unused:
  "count_and_sort_barcodes file as_completed guess_index tile_barcode_files
       barcode1_len barcode2_len truncateToLength includeNoise omitHeader threads
   = count_and_sort_barcodes file as_completed guess_index tile_barcode_files
       barcode1_len barcode2_len' truncateToLength includeNoise omitHeader threads
   \<and> (\<exists>k. map (\<lambda>r. r ! 2) (data_rows omitHeader
        (count_and_sort_barcodes file as_completed guess_index tile_barcode_files
           barcode1_len barcode2_len truncateToLength includeNoise omitHeader threads))
     = map (\<lambda>r. Text (slice_from (fst r) barcode1_len))
         (take k (get_counts_descending file
              (reduce_db file as_completed includeNoise tile_barcode_files))))
   \<and> (0 \<le> barcode1_len \<longrightarrow> (\<forall>barcode. slice_from barcode barcode1_len = drop (nat barcode1_len) barcode))"
proof -
  let ?rows = "get_counts_descending file (reduce_db file as_completed includeNoise tile_barcode_files)"
  obtain k where k: "rows_kept truncateToLength ?rows = take k ?rows"
    using rows_kept_prefix by blast
  have a: "count_and_sort_barcodes file as_completed guess_index tile_barcode_files
       barcode1_len barcode2_len truncateToLength includeNoise omitHeader threads
   = count_and_sort_barcodes file as_completed guess_index tile_barcode_files
       barcode1_len barcode2_len' truncateToLength includeNoise omitHeader threads"
    by (simp add: count_and_sort_barcodes_def)
  have third: "\<And>r. summary_row guess_index barcode1_len r ! 2 = Text (slice_from (fst r) barcode1_len)"
    by (simp add: summary_row_def split: prod.splits)
  have b: "\<exists>k. map (\<lambda>r. r ! 2) (data_rows omitHeader
        (count_and_sort_barcodes file as_completed guess_index tile_barcode_files
           barcode1_len barcode2_len truncateToLength includeNoise omitHeader threads))
     = map (\<lambda>r. Text (slice_from (fst r) barcode1_len)) (take k ?rows)"
    by (rule exI [of _ k]) (simp add: data_rows_count_and_sort third flip: k)
  have c: "0 \<le> barcode1_len \<longrightarrow> (\<forall>barcode. slice_from barcode barcode1_len = drop (nat barcode1_len) barcode)"
    by (auto simp: slice_from_def slice_bound_def min_def)
  from a b c show ?thesis by blast
qed

text \<open>
  The number of rows the loop writes when \<^verbatim>\<open>truncateToLength\<close> is positive: one more
  than \<^verbatim>\<open>truncateToLength\<close>, if the index has that many entries.
\<close>

lemma length_write_rows:
  "0 < N \<Longrightarrow> length (write_rows gi b1 (Some N) 0 rows) = min (nat N + 1) (length rows)"
  by (simp add: write_rows_eq nat_add_distrib min.commute)

text \<open>
  Claim C3 (truncation), at an input where the code departs from it. With
  \<^verbatim>\<open>truncateToLength = 1\<close> and three entries in the index, the loop writes two data rows:
  the test of line 555 compares the zero-based index with \<^verbatim>\<open>>\<close>, so the row at index
  \<^verbatim>\<open>truncateToLength\<close> is still written.
\<close>

theorem truncation_writes_one_row_more:
  "length (data_rows True
     (write_summary (\<lambda>seg distance. []) 4 (Some 1) True
        [(''AAAATTTT'', 3), (''CCCCGGGG'', 2), (''GGGGAAAA'', 1)])) = 2"
  by code_simp

text \<open>
  The worked example: the rows written for the three example tile files when the
  workers complete in reverse order, with the specification's \<^verbatim>\<open>util.file\<close>.
\<close>

lemma example_output:
  "count_and_sort_barcodes spec_util_file rev example_guess_index example_tile_files
      4 8 None False False None
   = [header_row,
      [Text ''AAAA'', Text ''N701'', Text ''TTTT'', Text ''Unknown'', Number 3],
      [Text ''CCCC'', Text ''Unknown'', Text ''GGGG'', Text ''N702,S502'', Number 2],
      [Text ''GGGG'', Text ''N702,S502'', Text ''AAAA'', Text ''N701'', Number 1]]"
  by code_simp

lemma example_rows:
  "get_counts_descending spec_util_file (reduce_db spec_util_file rev False example_tile_files)
     = [(''AAAATTTT'', 3), (''CCCCGGGG'', 2), (''GGGGAAAA'', 1)]"
  by code_simp

text \<open>
  Witness for C8: the row of the barcode \<^verbatim>\<open>GGGGAAAA\<close> in the worked example.
\<close>

theorem likely_name_lookup_witness:
  "[Text ''GGGG'', Text ''N702,S502'', Text ''AAAA'', Text ''N701'', Number 1]
     \<in> set (data_rows False
         (count_and_sort_barcodes spec_util_file rev example_guess_index example_tile_files
            4 8 None False False None))
   \<and> (\<exists>barcode cnt.
         (barcode, cnt) \<in> set (get_counts_descending spec_util_file
                                 (reduce_db spec_util_file rev False example_tile_files))
       \<and> [Text ''GGGG'', Text ''N702,S502'', Text ''AAAA'', Text ''N701'', Number 1]
           = [Text (slice_to barcode 4),
              Text (if example_guess_index (slice_to barcode 4) 1 = [] then ''Unknown''
                    else str_join '','' (example_guess_index (slice_to barcode 4) 1)),
              Text (slice_from barcode 4),
              Text (if example_guess_index (slice_from barcode 4) 1 = [] then ''Unknown''
                    else str_join '','' (example_guess_index (slice_from barcode 4) 1)),
              Number cnt]
       \<and> (\<forall>name. example_guess_index (slice_to barcode 4) 1 = [name]
             \<longrightarrow> [Text ''GGGG'', Text ''N702,S502'', Text ''AAAA'', Text ''N701'', Number 1] ! 1
                   = Text name)
       \<and> (\<forall>name. example_guess_index (slice_from barcode 4) 1 = [name]
             \<longrightarrow> [Text ''GGGG'', Text ''N702,S502'', Text ''AAAA'', Text ''N701'', Number 1] ! 3
                   = Text name))"
proof -
  have h: "[Text ''GGGG'', Text ''N702,S502'', Text ''AAAA'', Text ''N701'', Number 1]
     \<in> set (data_rows False
         (count_and_sort_barcodes spec_util_file rev example_guess_index example_tile_files
            4 8 None False False None))"
    by (simp add: example_output data_rows_def)
  show ?thesis
    using h likely_name_lookup [OF h] by (rule conjI)
qed

text \<open>
  Witness for C9: the worked example cut with \<^verbatim>\<open>truncateToLength = 1\<close>.
\<close>

theorem ranked_output_ordering_witness:
  "sorted_wrt (\<ge>) (map snd (get_counts_descending spec_util_file
       (reduce_db spec_util_file rev False example_tile_files)))
   \<and> map row_count (data_rows False
        (count_and_sort_barcodes spec_util_file rev example_guess_index example_tile_files
           4 8 (Some 1) False False None)) = [3, 2]
   \<and> hd (count_and_sort_barcodes spec_util_file rev example_guess_index example_tile_files
           4 8 (Some 1) False False None) = header_row"
proof -
  have h: "sorted_wrt (\<ge>) (map snd (get_counts_descending spec_util_file
       (reduce_db spec_util_file rev False example_tile_files)))"
    by (simp add: example_rows)
  have c: "map row_count (data_rows False
        (count_and_sort_barcodes spec_util_file rev example_guess_index example_tile_files
           4 8 (Some 1) False False None)) = [3, 2]"
    by code_simp
  from ranked_output_ordering [of spec_util_file rev False example_tile_files False
      example_guess_index 4 8 "Some 1" None, OF h]
  have "hd (count_and_sort_barcodes spec_util_file rev example_guess_index example_tile_files
           4 8 (Some 1) False False None) = header_row"
    by (metis list.sel(1))
  with h c show ?thesis by (intro conjI)
qed

text \<open>
  Witness for C10: the worked example with \<^verbatim>\<open>barcode2_len\<close> 8 and 0.
\<close>

theorem barcode2_len_unused_witness:
  "count_and_sort_barcodes spec_util_file rev example_guess_index example_tile_files
      4 8 None False False None
   = count_and_sort_barcodes spec_util_file rev example_guess_index example_tile_files
      4 0 None False False None
   \<and> (0::int) \<le> 4 \<and> slice_from ''AAAATTTT'' 4 = drop (nat 4) ''AAAATTTT''"
  using barcode2_len_unused [of spec_util_file rev example_guess_index example_tile_files
      4 8 None False False None 0]
  by simp

section \<open>Properties of the argument parser\<close>

text \<open>
  Claim C7 as stated fails: a command line that gives both \<^verbatim>\<open>--sample_names\<close> and
  \<^verbatim>\<open>--readcount_threshold\<close> ends in the usage error of argparse, \<^verbatim>\<open>SystemExit(2)\<close>, and
  not in a \<^verbatim>\<open>ConfigurationError\<close>.
\<close>

theorem guesser_conflict_counterexample:
  "parser_guess_barcodes example_names_and_threshold = Inl (SystemExit 2)
   \<and> parser_guess_barcodes example_names_and_threshold \<noteq> Inl ConfigurationError"
  by (simp add: parser_guess_barcodes_def example_names_and_threshold_def example_names_only_def)

text \<open>
  Claim C7 as amended. A command line that gives both \<^verbatim>\<open>--sample_names\<close> and
  \<^verbatim>\<open>--readcount_threshold\<close> is rejected by the parser with \<^verbatim>\<open>SystemExit(2)\<close>. Every
  namespace the parser returns holds the two options as given, at most one of them is
  set, and it stands for exactly one of the three selection modes.
\<close>

theorem sample_selection_exclusive:
  "(cl_sample_names cl \<noteq> None \<and> cl_readcount_threshold cl \<noteq> None
      \<longrightarrow> parser_guess_barcodes cl = Inl (SystemExit 2))
   \<and> (\<forall>a. parser_guess_barcodes cl = Inr a
        \<longrightarrow> sample_names a = cl_sample_names cl
          \<and> readcount_threshold a = cl_readcount_threshold cl
          \<and> (sample_names a = None \<or> readcount_threshold a = None)
          \<and> length (selection_modes a) = 1)"
  by (auto simp: parser_guess_barcodes_def selection_modes_def split: if_splits)

text \<open>
  Witness for C7: the command line with both options, and the one with names only.
\<close>

theorem sample_selection_exclusive_witness:
  "cl_sample_names example_names_and_threshold \<noteq> None
   \<and> cl_readcount_threshold example_names_and_threshold \<noteq> None
   \<and> parser_guess_barcodes example_names_and_threshold = Inl (SystemExit 2)
   \<and> (\<exists>a. parser_guess_barcodes example_names_only = Inr a
         \<and> sample_names a = Some [''sample1''] \<and> readcount_threshold a = None
         \<and> selection_modes a = [ByName])"
proof -
  have both: "cl_sample_names example_names_and_threshold \<noteq> None
      \<and> cl_readcount_threshold example_names_and_threshold \<noteq> None"
    by (simp add: example_names_and_threshold_def example_names_only_def)
  with sample_selection_exclusive [of example_names_and_threshold]
  have exit: "parser_guess_barcodes example_names_and_threshold = Inl (SystemExit 2)"
    by blast
  obtain a where a: "parser_guess_barcodes example_names_only = Inr a"
    by (simp add: parser_guess_barcodes_def example_names_only_def)
  with sample_selection_exclusive [of example_names_only]
  have "sample_names a = cl_sample_names example_names_only"
    and "readcount_threshold a = cl_readcount_threshold example_names_only"
    by blast+
  then have f: "sample_names a = Some [''sample1'']" "readcount_threshold a = None"
    by (simp_all add: example_names_only_def)
  then have "selection_modes a = [ByName]" by (simp add: selection_modes_def)
  with both exit a f show ?thesis by blast
qed

section \<open>Properties of the scatter and merge loop\<close>

lemma sum_list_perm:
  fixes f :: "'a \<Rightarrow> nat"
  assumes "mset xs = mset ys"
  shows "sum_list (map f xs) = sum_list (map f ys)"
proof -
  have "sum_mset (mset (map f xs)) = sum_mset (mset (map f ys))"
    using assms by simp
  then show ?thesis by (simp only: sum_mset_sum_list)
qed

lemma tally_concat:
  "tally noise (concat tiles) b = sum_list (map (\<lambda>t. tally noise t b) tiles)"
  by (induction tiles) (auto simp: tally_def)

lemma length_filter_concat:
  "length (filter P (concat tiles)) = sum_list (map (\<lambda>t. length (filter P t)) tiles)"
  by (induction tiles) auto

lemma sum_length_filter_image:
  "(\<Sum>b \<in> f ` set xs. length (filter (\<lambda>x. P x \<and> f x = b) xs)) = length (filter P xs)"
proof -
  let ?M = "mset (map f (filter P xs))"
  have c: "\<And>b. count ?M b = length (filter (\<lambda>x. P x \<and> f x = b) xs)"
    by (induction xs) auto
  have "length (filter P xs) = size ?M" by (simp only: size_mset length_map)
  also have "\<dots> = (\<Sum>b \<in> set_mset ?M. count ?M b)" by (rule size_multiset_overloaded_eq)
  also have "\<dots> = (\<Sum>b \<in> f ` set xs. count ?M b)"
  proof (rule sum.mono_neutral_left)
    show "finite (f ` set xs)" by simp
    show "set_mset ?M \<subseteq> f ` set xs" by auto
    show "\<forall>b \<in> f ` set xs - set_mset ?M. count ?M b = 0"
      by (intro ballI) (simp only: count_eq_zero_iff, blast)
  qed
  also have "\<dots> = (\<Sum>b \<in> f ` set xs. length (filter (\<lambda>x. P x \<and> f x = b) xs))"
    by (simp only: c)
  finally show ?thesis by (rule sym)
qed

lemma gather_count:
  fixes count_of :: "'db \<Rightarrow> string \<Rightarrow> nat"
  assumes "\<forall>db. \<forall>d \<in> set dbs. \<forall>b. count_of (merge db d) b = count_of db b + count_of d b"
  shows "count_of (fold (\<lambda>tmp_db db. merge db tmp_db) dbs init) b
           = count_of init b + sum_list (map (\<lambda>d. count_of d b) dbs)"
  using assms by (induction dbs arbitrary: init) auto

text \<open>
  Claim C1 (count conservation). \<open>count_of\<close> reads the count that a database holds
  for a barcode, 0 when it holds none. Suppose the two functions of \<^verbatim>\<open>util.file\<close> that the
  loop of lines 531 to 538 calls do what the specification says: the index a worker
  returns for a tile file holds, for every barcode, the number of counted lines of the
  file with that barcode field (all lines when \<^verbatim>\<open>includeNoise\<close>, the lines without a
  period otherwise), and merging a worker's index into a database adds its count to the
  count of every barcode; suppose the new \<^verbatim>\<open>CountDB\<close> is empty and \<^verbatim>\<open>as_completed\<close> yields
  every worker's index once, in any order. Then the final \<^verbatim>\<open>reduce_db\<close> holds for each
  barcode the number of counted lines, over all tile files, whose barcode field is that
  barcode, and its counts add up to the number of counted lines.
\<close>

theorem count_conservation:
  fixes count_of :: "'db \<Rightarrow> string \<Rightarrow> nat"
  assumes worker: "\<forall>tile b.
        count_of (count_occurrences_in_tsv_sqlite_backed file includeNoise tile) b
          = length (filter (\<lambda>line. counted includeNoise line \<and> barcode_field line = b) tile)"
    and merge: "\<forall>db tile b.
        count_of (add_counts_from_other_db file db
                    (count_occurrences_in_tsv_sqlite_backed file includeNoise tile)) b
          = count_of db b
            + count_of (count_occurrences_in_tsv_sqlite_backed file includeNoise tile) b"
    and empty: "\<forall>b. count_of (CountDB file) b = 0"
    and completed: "mset (as_completed
          (map (count_occurrences_in_tsv_sqlite_backed file includeNoise) tile_barcode_files))
        = mset (map (count_occurrences_in_tsv_sqlite_backed file includeNoise) tile_barcode_files)"
  shows "count_of (reduce_db file as_completed includeNoise tile_barcode_files) barcode
           = length (filter (\<lambda>line. counted includeNoise line \<and> barcode_field line = barcode)
                       (concat tile_barcode_files))
       \<and> (\<Sum>b \<in> barcode_field ` set (concat tile_barcode_files).
             count_of (reduce_db file as_completed includeNoise tile_barcode_files) b)
           = length (filter (counted includeNoise) (concat tile_barcode_files))"
proof -
  let ?w = "count_occurrences_in_tsv_sqlite_backed file includeNoise"
  let ?dbs = "as_completed (map ?w tile_barcode_files)"
  have s: "set ?dbs = set (map ?w tile_barcode_files)"
    using completed by (rule mset_eq_setD)
  have m: "\<forall>db. \<forall>d \<in> set ?dbs. \<forall>b.
      count_of (add_counts_from_other_db file db d) b = count_of db b + count_of d b"
    unfolding s using merge by auto
  have point: "count_of (reduce_db file as_completed includeNoise tile_barcode_files) b
           = length (filter (\<lambda>line. counted includeNoise line \<and> barcode_field line = b)
                       (concat tile_barcode_files))" for b
  proof -
    have "count_of (reduce_db file as_completed includeNoise tile_barcode_files) b
            = sum_list (map (\<lambda>d. count_of d b) ?dbs)"
      unfolding reduce_db_def using gather_count [OF m, of "CountDB file" b] empty by simp
    also have "\<dots> = sum_list (map (\<lambda>d. count_of d b) (map ?w tile_barcode_files))"
      using completed by (rule sum_list_perm)
    also have "\<dots> = sum_list (map (\<lambda>t. tally includeNoise t b) tile_barcode_files)"
      using worker by (simp add: comp_def tally_def)
    also have "\<dots> = tally includeNoise (concat tile_barcode_files) b"
      by (simp add: tally_concat)
    finally show ?thesis by (simp add: tally_def)
  qed
  have "(\<Sum>b \<in> barcode_field ` set (concat tile_barcode_files).
             count_of (reduce_db file as_completed includeNoise tile_barcode_files) b)
       = length (filter (counted includeNoise) (concat tile_barcode_files))"
    unfolding point by (rule sum_length_filter_image)
  with point show ?thesis by blast
qed

section \<open>Properties of the count index of the specification\<close>

lemma map_of_add_count:
  "map_of (add_count k n db) = (map_of db)(k \<mapsto> cnt db k + n)"
  by (induction db) (auto simp: cnt_def fun_eq_iff)

lemma keys_add_count_list:
  "map fst (add_count k n db) = (if k \<in> fst ` set db then map fst db else map fst db @ [k])"
  by (induction db) (auto split: if_splits)

lemma index_keys_Nil: "index_keys [] = {}"
  by (simp add: index_keys_def)

lemma index_keys_Cons: "index_keys (e # db) = insert (fst e) (index_keys db)"
  by (simp add: index_keys_def)

lemma keys_add_count: "index_keys (add_count k n db) = insert k (index_keys db)"
proof -
  have "set (map fst (add_count k n db)) = insert k (set (map fst db))"
    by (auto simp: keys_add_count_list)
  then show ?thesis by (simp add: index_keys_def)
qed

lemma distinct_add_count:
  "distinct (map fst db) \<Longrightarrow> distinct (map fst (add_count k n db))"
  by (simp add: keys_add_count_list)

lemma sum_add_count: "sum_list (map snd (add_count k n db)) = sum_list (map snd db) + n"
  by (induction db) auto

lemma tot_add_count: "tot (add_count k n db) b = tot db b + (if k = b then n else 0)"
  by (induction db) (auto simp: tot_def)

lemma cnt_add_count: "cnt (add_count k n db) b = cnt db b + (if k = b then n else 0)"
  by (simp add: cnt_def map_of_add_count)

lemma pos_add_count:
  "\<forall>e \<in> set db. 0 < snd e \<Longrightarrow> 0 < n \<Longrightarrow> \<forall>e \<in> set (add_count k n db). 0 < snd e"
  by (induction db) (fastforce split: if_splits)+

lemma tot_eq_cnt: "distinct (map fst db) \<Longrightarrow> tot db b = cnt db b"
proof (induction db)
  case Nil
  show ?case by (simp add: tot_def cnt_def)
next
  case (Cons e db)
  obtain k c where e: "e = (k, c)" by (cases e)
  show ?case
  proof (cases "k = b")
    case True
    with Cons.prems e have "b \<notin> fst ` set db" by auto
    then have "filter (\<lambda>e. fst e = b) db = []" by (auto simp: filter_empty_conv)
    with True e show ?thesis by (simp add: tot_def cnt_def)
  next
    case False
    with Cons e show ?thesis by (simp add: tot_def cnt_def)
  qed
qed

lemma map_of_pos:
  "\<forall>e \<in> set db. 0 < snd e \<Longrightarrow> map_of db b = (if cnt db b = 0 then None else Some (cnt db b))"
proof (cases "map_of db b")
  case None
  then show ?thesis by (simp add: cnt_def)
next
  case (Some c)
  then have "(b, c) \<in> set db" by (rule map_of_SomeD)
  moreover assume "\<forall>e \<in> set db. 0 < snd e"
  ultimately have "0 < c" by fastforce
  with Some show ?thesis by (simp add: cnt_def)
qed


lemma map_of_keys_cnt:
  "map_of db b = (if b \<in> index_keys db then Some (cnt db b) else None)"
  by (cases "map_of db b")
     (auto simp: index_keys_def cnt_def map_of_eq_None_iff dest: map_of_SomeD intro: rev_image_eqI)

lemma worker_cnt:
  "cnt (fold (\<lambda>line db. if counted noise line then add_count (barcode_field line) 1 db else db) ls db) b
     = cnt db b + tally noise ls b"
  by (induction ls arbitrary: db) (auto simp: cnt_add_count tally_def)

lemma worker_keys:
  "index_keys (fold (\<lambda>line db. if counted noise line then add_count (barcode_field line) 1 db else db) ls db)
     = index_keys db \<union> barcode_field ` {l \<in> set ls. counted noise l}"
  by (induction ls arbitrary: db) (auto simp: keys_add_count)

lemma worker_distinct:
  "distinct (map fst db) \<Longrightarrow>
   distinct (map fst (fold (\<lambda>line db. if counted noise line then add_count (barcode_field line) 1 db else db) ls db))"
  by (induction ls arbitrary: db) (auto simp: distinct_add_count)

lemma worker_pos:
  "\<forall>e \<in> set db. 0 < snd e \<Longrightarrow>
   \<forall>e \<in> set (fold (\<lambda>line db. if counted noise line then add_count (barcode_field line) 1 db else db) ls db). 0 < snd e"
proof (induction ls arbitrary: db)
  case Nil
  then show ?case by simp
next
  case (Cons l ls)
  show ?case
  proof (cases "counted noise l")
    case True
    have "\<forall>e \<in> set (add_count (barcode_field l) 1 db). 0 < snd e"
      using Cons.prems by (rule pos_add_count) simp
    then show ?thesis using True Cons.IH by simp
  next
    case False
    then show ?thesis using Cons by simp
  qed
qed

lemma worker_sum:
  "sum_list (map snd (fold (\<lambda>line db. if counted noise line then add_count (barcode_field line) 1 db else db) ls db))
     = sum_list (map snd db) + length (filter (counted noise) ls)"
  by (induction ls arbitrary: db) (auto simp: sum_add_count)

lemma counting_worker_cnt: "cnt (counting_worker noise ls) b = tally noise ls b"
  by (simp add: counting_worker_def worker_cnt) (simp add: cnt_def)

lemma counting_worker_keys:
  "index_keys (counting_worker noise ls) = barcode_field ` {l \<in> set ls. counted noise l}"
  by (simp add: counting_worker_def worker_keys index_keys_Nil)

lemma counting_worker_distinct: "distinct (map fst (counting_worker noise ls))"
  by (simp add: counting_worker_def worker_distinct)

lemma counting_worker_pos: "\<forall>e \<in> set (counting_worker noise ls). 0 < snd e"
  unfolding counting_worker_def by (rule worker_pos) simp

lemma counting_worker_sum:
  "sum_list (map snd (counting_worker noise ls)) = length (filter (counted noise) ls)"
  by (simp add: counting_worker_def worker_sum)

lemma counting_worker_tot: "tot (counting_worker noise ls) b = tally noise ls b"
  by (simp add: tot_eq_cnt counting_worker_distinct counting_worker_cnt)

lemma merge_cnt: "cnt (merge_from db other) b = cnt db b + tot other b"
  unfolding merge_from_def
  by (induction other arbitrary: db) (auto simp: cnt_add_count tot_def)

lemma merge_tot: "tot (merge_from db other) b = tot db b + tot other b"
  unfolding merge_from_def
proof (induction other arbitrary: db)
  case Nil
  show ?case by (simp add: tot_def)
next
  case (Cons e other)
  obtain k n where e: "e = (k, n)" by (cases e)
  have "tot ((k, n) # other) b = (if k = b then n else 0) + tot other b"
    by (simp add: tot_def)
  with Cons e show ?case by (simp add: tot_add_count)
qed

lemma merge_keys: "index_keys (merge_from db other) = index_keys db \<union> index_keys other"
  unfolding merge_from_def
  by (induction other arbitrary: db) (auto simp: keys_add_count index_keys_Nil index_keys_Cons)

lemma merge_distinct: "distinct (map fst db) \<Longrightarrow> distinct (map fst (merge_from db other))"
  unfolding merge_from_def
  by (induction other arbitrary: db) (auto simp: distinct_add_count)

lemma merge_pos:
  "\<forall>e \<in> set db. 0 < snd e \<Longrightarrow> \<forall>e \<in> set other. 0 < snd e
     \<Longrightarrow> \<forall>e \<in> set (merge_from db other). 0 < snd e"
  unfolding merge_from_def
proof (induction other arbitrary: db)
  case Nil
  then show ?case by simp
next
  case (Cons e other)
  obtain k n where e: "e = (k, n)" by (cases e)
  with Cons.prems have n: "0 < n" by simp
  have "\<forall>e \<in> set (add_count k n db). 0 < snd e"
    using Cons.prems(1) n by (rule pos_add_count)
  moreover have "\<forall>e \<in> set other. 0 < snd e" using Cons.prems(2) by simp
  ultimately show ?case using Cons.IH e by simp
qed

lemma merge_sum:
  "sum_list (map snd (merge_from db other)) = sum_list (map snd db) + sum_list (map snd other)"
  unfolding merge_from_def
  by (induction other arbitrary: db) (auto simp: sum_add_count)

lemma gather_cnt:
  "cnt (fold (\<lambda>tmp_db db. merge_from db tmp_db) dbs init) b
     = cnt init b + sum_list (map (\<lambda>d. tot d b) dbs)"
  by (induction dbs arbitrary: init) (auto simp: merge_cnt)

lemma gather_keys:
  "index_keys (fold (\<lambda>tmp_db db. merge_from db tmp_db) dbs init)
     = index_keys init \<union> (\<Union>d \<in> set dbs. index_keys d)"
  by (induction dbs arbitrary: init) (auto simp: merge_keys)

lemma gather_distinct:
  "distinct (map fst init) \<Longrightarrow>
   distinct (map fst (fold (\<lambda>tmp_db db. merge_from db tmp_db) dbs init))"
  by (induction dbs arbitrary: init) (auto simp: merge_distinct)

lemma gather_pos:
  "\<forall>e \<in> set init. 0 < snd e \<Longrightarrow> \<forall>d \<in> set dbs. \<forall>e \<in> set d. 0 < snd e \<Longrightarrow>
   \<forall>e \<in> set (fold (\<lambda>tmp_db db. merge_from db tmp_db) dbs init). 0 < snd e"
proof (induction dbs arbitrary: init)
  case Nil
  then show ?case by simp
next
  case (Cons d dbs)
  have "\<forall>e \<in> set (merge_from init d). 0 < snd e"
    using Cons.prems by (intro merge_pos) simp_all
  moreover have "\<forall>d \<in> set dbs. \<forall>e \<in> set d. 0 < snd e" using Cons.prems(2) by simp
  ultimately show ?case using Cons.IH by simp
qed

lemma gather_sum:
  "sum_list (map snd (fold (\<lambda>tmp_db db. merge_from db tmp_db) dbs init))
     = sum_list (map snd init) + sum_list (map (\<lambda>d. sum_list (map snd d)) dbs)"
  by (induction dbs arbitrary: init) (auto simp: merge_sum)

lemma reduce_db_spec:
  "reduce_db spec_util_file ac noise tiles
     = fold (\<lambda>tmp_db db. merge_from db tmp_db) (ac (map (counting_worker noise) tiles)) []"
  by (simp add: reduce_db_def spec_util_file_def)

lemma cnt_Nil: "cnt [] b = 0"
  by (simp add: cnt_def)

lemma reduce_db_cnt:
  assumes "mset (ac (map (counting_worker noise) tiles)) = mset (map (counting_worker noise) tiles)"
  shows "cnt (reduce_db spec_util_file ac noise tiles) b = tally noise (concat tiles) b"
proof -
  have "cnt (reduce_db spec_util_file ac noise tiles) b
          = sum_list (map (\<lambda>d. tot d b) (ac (map (counting_worker noise) tiles)))"
    by (simp add: reduce_db_spec gather_cnt cnt_Nil)
  also have "\<dots> = sum_list (map (\<lambda>d. tot d b) (map (counting_worker noise) tiles))"
    using assms by (rule sum_list_perm)
  also have "\<dots> = sum_list (map (\<lambda>t. tally noise t b) tiles)"
    by (simp add: comp_def counting_worker_tot)
  also have "\<dots> = tally noise (concat tiles) b"
    by (simp add: tally_concat)
  finally show ?thesis .
qed

lemma reduce_db_keys:
  assumes "mset (ac (map (counting_worker noise) tiles)) = mset (map (counting_worker noise) tiles)"
  shows "index_keys (reduce_db spec_util_file ac noise tiles)
           = barcode_field ` {l \<in> set (concat tiles). counted noise l}"
proof -
  have "set (ac (map (counting_worker noise) tiles)) = set (map (counting_worker noise) tiles)"
    using assms by (rule mset_eq_setD)
  then have "index_keys (reduce_db spec_util_file ac noise tiles)
          = (\<Union>t \<in> set tiles. index_keys (counting_worker noise t))"
    by (simp add: reduce_db_spec gather_keys index_keys_Nil)
  then show ?thesis by (auto simp: counting_worker_keys)
qed

lemma reduce_db_pos:
  assumes "mset (ac (map (counting_worker noise) tiles)) = mset (map (counting_worker noise) tiles)"
  shows "\<forall>e \<in> set (reduce_db spec_util_file ac noise tiles). 0 < snd e"
proof -
  have s: "set (ac (map (counting_worker noise) tiles)) = set (map (counting_worker noise) tiles)"
    using assms by (rule mset_eq_setD)
  have "\<forall>d \<in> set (ac (map (counting_worker noise) tiles)). \<forall>e \<in> set d. 0 < snd e"
    unfolding s using counting_worker_pos by auto
  then show ?thesis
    unfolding reduce_db_spec by (intro gather_pos) simp_all
qed

lemma reduce_db_distinct: "distinct (map fst (reduce_db spec_util_file ac noise tiles))"
  unfolding reduce_db_spec by (rule gather_distinct) simp

lemma reduce_db_sum:
  assumes "mset (ac (map (counting_worker noise) tiles)) = mset (map (counting_worker noise) tiles)"
  shows "sum_list (map snd (reduce_db spec_util_file ac noise tiles))
           = length (filter (counted noise) (concat tiles))"
proof -
  have "sum_list (map snd (reduce_db spec_util_file ac noise tiles))
          = sum_list (map (\<lambda>d. sum_list (map snd d)) (ac (map (counting_worker noise) tiles)))"
    by (simp add: reduce_db_spec gather_sum)
  also have "\<dots> = sum_list (map (\<lambda>d. sum_list (map snd d)) (map (counting_worker noise) tiles))"
    using assms by (rule sum_list_perm)
  also have "\<dots> = sum_list (map (\<lambda>t. length (filter (counted noise) t)) tiles)"
    by (simp add: comp_def counting_worker_sum)
  also have "\<dots> = length (filter (counted noise) (concat tiles))"
    by (simp add: length_filter_concat)
  finally show ?thesis .
qed

lemma reduce_db_lookup:
  assumes "mset (ac (map (counting_worker noise) tiles)) = mset (map (counting_worker noise) tiles)"
  shows "lookup_count (reduce_db spec_util_file ac noise tiles) b
           = (if tally noise (concat tiles) b = 0 then None else Some (tally noise (concat tiles) b))"
  unfolding lookup_count_def
  using map_of_pos [OF reduce_db_pos [of ac noise tiles, OF assms], of b]
    reduce_db_cnt [of ac noise tiles b, OF assms] by simp

text \<open>
  Witness for C1: the \<^verbatim>\<open>util.file\<close> of the specification meets the hypotheses; the worked
  example with the workers completing in reverse order.
\<close>

theorem count_conservation_witness:
  "(\<forall>tile b. cnt (counting_worker False tile) b
        = length (filter (\<lambda>line. counted False line \<and> barcode_field line = b) tile))
   \<and> mset (rev (map (counting_worker False) example_tile_files))
     = mset (map (counting_worker False) example_tile_files)
   \<and> cnt (reduce_db spec_util_file rev False example_tile_files) ''AAAATTTT'' = 3
   \<and> cnt (reduce_db spec_util_file rev False example_tile_files) ''AAAA.TTT'' = 0
   \<and> (\<Sum>b \<in> barcode_field ` set (concat example_tile_files).
         cnt (reduce_db spec_util_file rev False example_tile_files) b) = 6"
proof -
  have w: "\<forall>tile b. cnt (count_occurrences_in_tsv_sqlite_backed spec_util_file False tile) b
        = length (filter (\<lambda>line. counted False line \<and> barcode_field line = b) tile)"
    by (simp add: spec_util_file_def counting_worker_cnt tally_def)
  have m: "\<forall>db tile b.
        cnt (add_counts_from_other_db spec_util_file db
               (count_occurrences_in_tsv_sqlite_backed spec_util_file False tile)) b
          = cnt db b + cnt (count_occurrences_in_tsv_sqlite_backed spec_util_file False tile) b"
    by (simp add: spec_util_file_def merge_cnt tot_eq_cnt counting_worker_distinct)
  have e: "\<forall>b. cnt (CountDB spec_util_file) b = 0"
    by (simp add: spec_util_file_def cnt_def)
  have h: "mset (rev (map (count_occurrences_in_tsv_sqlite_backed spec_util_file False)
                     example_tile_files))
     = mset (map (count_occurrences_in_tsv_sqlite_backed spec_util_file False) example_tile_files)"
    by simp
  note t = count_conservation [of cnt spec_util_file False rev example_tile_files, OF w m e h]
  have a: "length (filter (\<lambda>line. counted False line \<and> barcode_field line = ''AAAATTTT'')
                       (concat example_tile_files)) = 3"
    by code_simp
  have b: "length (filter (\<lambda>line. counted False line \<and> barcode_field line = ''AAAA.TTT'')
                       (concat example_tile_files)) = 0"
    by code_simp
  have c: "length (filter (counted False) (concat example_tile_files)) = 6"
    by code_simp
  from t [of "''AAAATTTT''"] a
  have r1: "cnt (reduce_db spec_util_file rev False example_tile_files) ''AAAATTTT'' = 3"
    by simp
  from t [of "''AAAA.TTT''"] b
  have r2: "cnt (reduce_db spec_util_file rev False example_tile_files) ''AAAA.TTT'' = 0"
    by simp
  from t [of "''AAAATTTT''"] c
  have r3: "(\<Sum>b \<in> barcode_field ` set (concat example_tile_files).
         cnt (reduce_db spec_util_file rev False example_tile_files) b) = 6"
    by simp
  have w': "\<forall>tile b. cnt (counting_worker False tile) b
        = length (filter (\<lambda>line. counted False line \<and> barcode_field line = b) tile)"
    using w by (simp add: spec_util_file_def)
  have h': "mset (rev (map (counting_worker False) example_tile_files))
     = mset (map (counting_worker False) example_tile_files)"
    by simp
  from w' h' r1 r2 r3 show ?thesis by (intro conjI)
qed

lemma lookup_merge:
  "lookup_count (merge_from db other) b
     = (if b \<in> index_keys db \<union> index_keys other then Some (cnt db b + tot other b) else None)"
  by (simp add: lookup_count_def map_of_keys_cnt merge_keys merge_cnt)

lemma lookup_gather:
  "lookup_count (fold (\<lambda>tmp_db db. merge_from db tmp_db) dbs init) b
     = (if b \<in> index_keys init \<union> (\<Union>d \<in> set dbs. index_keys d)
        then Some (cnt init b + sum_list (map (\<lambda>d. tot d b) dbs)) else None)"
  by (simp add: lookup_count_def map_of_keys_cnt gather_keys gather_cnt)

lemma gather_perm:
  assumes "mset xs = mset ys"
  shows "lookup_count (fold (\<lambda>tmp_db db. merge_from db tmp_db) xs init)
           = lookup_count (fold (\<lambda>tmp_db db. merge_from db tmp_db) ys init)"
proof
  fix b
  have "set xs = set ys" using assms by (rule mset_eq_setD)
  moreover have "sum_list (map (\<lambda>d. tot d b) xs) = sum_list (map (\<lambda>d. tot d b) ys)"
    using assms by (rule sum_list_perm)
  ultimately show "lookup_count (fold (\<lambda>tmp_db db. merge_from db tmp_db) xs init) b
           = lookup_count (fold (\<lambda>tmp_db db. merge_from db tmp_db) ys init) b"
    by (simp add: lookup_gather)
qed

lemma merge_swap:
  "lookup_count (merge_from (merge_from db a) b) = lookup_count (merge_from (merge_from db b) a)"
  using gather_perm [of "[a, b]" "[b, a]" db] by simp

lemma merge_assoc:
  "lookup_count (merge_from (merge_from a b) c) = lookup_count (merge_from a (merge_from b c))"
  by (rule ext) (auto simp: lookup_merge merge_keys merge_cnt merge_tot)

lemma merge_commute:
  assumes "distinct (map fst a)" "distinct (map fst b)"
  shows "lookup_count (merge_from a b) = lookup_count (merge_from b a)"
  by (rule ext) (auto simp: lookup_merge tot_eq_cnt [OF assms(1)] tot_eq_cnt [OF assms(2)])

text \<open>
  Claim C2 (merge order-independence), for the \<^verbatim>\<open>util.file\<close> of the specification.
  Two completion orders of the same workers give final indexes with the same count
  for every key. Merging two indexes into a third in either order gives the same
  counts, merging is associative, and merging two indexes with unique keys is
  commutative.
\<close>

theorem merge_order_independence:
  assumes "mset (as_completed (map (counting_worker includeNoise) tile_barcode_files))
             = mset (map (counting_worker includeNoise) tile_barcode_files)"
      and "mset (as_completed' (map (counting_worker includeNoise) tile_barcode_files))
             = mset (map (counting_worker includeNoise) tile_barcode_files)"
  shows "lookup_count (reduce_db spec_util_file as_completed includeNoise tile_barcode_files)
           = lookup_count (reduce_db spec_util_file as_completed' includeNoise tile_barcode_files)
       \<and> (\<forall>db a b. lookup_count (merge_from (merge_from db a) b)
                     = lookup_count (merge_from (merge_from db b) a))
       \<and> (\<forall>a b c. lookup_count (merge_from (merge_from a b) c)
                    = lookup_count (merge_from a (merge_from b c)))
       \<and> (\<forall>a b. distinct (map fst a) \<and> distinct (map fst b)
                  \<longrightarrow> lookup_count (merge_from a b) = lookup_count (merge_from b a))"
proof -
  have "mset (as_completed (map (counting_worker includeNoise) tile_barcode_files))
          = mset (as_completed' (map (counting_worker includeNoise) tile_barcode_files))"
    using assms by simp
  then have "lookup_count (reduce_db spec_util_file as_completed includeNoise tile_barcode_files)
           = lookup_count (reduce_db spec_util_file as_completed' includeNoise tile_barcode_files)"
    unfolding reduce_db_spec by (rule gather_perm)
  then show ?thesis
    using merge_swap merge_assoc merge_commute by blast
qed

text \<open>
  Witness for C2: the worked example with the workers completing in reverse order and
  in submission order; the two indexes list their keys in different orders and hold
  the same counts.
\<close>

theorem merge_order_independence_witness:
  "mset (rev (map (counting_worker False) example_tile_files))
     = mset (map (counting_worker False) example_tile_files)
   \<and> mset (id (map (counting_worker False) example_tile_files))
     = mset (map (counting_worker False) example_tile_files)
   \<and> lookup_count (reduce_db spec_util_file rev False example_tile_files)
     = lookup_count (reduce_db spec_util_file id False example_tile_files)
   \<and> reduce_db spec_util_file rev False example_tile_files
     = [(''CCCCGGGG'', 2), (''GGGGAAAA'', 1), (''AAAATTTT'', 3)]
   \<and> reduce_db spec_util_file id False example_tile_files
     = [(''AAAATTTT'', 3), (''CCCCGGGG'', 2), (''GGGGAAAA'', 1)]
   \<and> distinct (map fst [(''AAAATTTT'', 2::nat)]) \<and> distinct (map fst [(''CCCCGGGG'', 1::nat)])
   \<and> lookup_count (merge_from [(''AAAATTTT'', 2)] [(''CCCCGGGG'', 1)])
     = lookup_count (merge_from [(''CCCCGGGG'', 1)] [(''AAAATTTT'', 2)])"
proof -
  have h1: "mset (rev (map (counting_worker False) example_tile_files))
     = mset (map (counting_worker False) example_tile_files)"
    by simp
  have h2: "mset (id (map (counting_worker False) example_tile_files))
     = mset (map (counting_worker False) example_tile_files)"
    by simp
  note t = merge_order_independence [of rev False example_tile_files id, OF h1 h2]
  have d: "distinct (map fst [(''AAAATTTT'', 2::nat)])" "distinct (map fst [(''CCCCGGGG'', 1::nat)])"
    by simp_all
  from t d have "lookup_count (merge_from [(''AAAATTTT'', 2)] [(''CCCCGGGG'', 1)])
     = lookup_count (merge_from [(''CCCCGGGG'', 1)] [(''AAAATTTT'', 2)])"
    by blast
  moreover from t have "lookup_count (reduce_db spec_util_file rev False example_tile_files)
     = lookup_count (reduce_db spec_util_file id False example_tile_files)"
    by blast
  moreover have "reduce_db spec_util_file rev False example_tile_files
     = [(''CCCCGGGG'', 2), (''GGGGAAAA'', 1), (''AAAATTTT'', 3)]"
    by code_simp
  moreover have "reduce_db spec_util_file id False example_tile_files
     = [(''AAAATTTT'', 3), (''CCCCGGGG'', 2), (''GGGGAAAA'', 1)]"
    by code_simp
  ultimately show ?thesis using h1 h2 d by blast
qed

lemma row_barcode_summary_row: "row_barcode (summary_row gi b1 (barcode, c)) = barcode"
  by (simp add: summary_row_def slice_to_def slice_from_def)

lemma set_iter_sorted_desc: "set (iter_sorted_desc db) = set db"
  by (simp add: iter_sorted_desc_def)

lemma data_rows_spec:
  "data_rows oh (count_and_sort_barcodes spec_util_file ac gi tiles b1 b2 t noise oh th)
     = map (summary_row gi b1) (rows_kept t (iter_sorted_desc (reduce_db spec_util_file ac noise tiles)))"
  by (simp add: data_rows_count_and_sort) (simp add: spec_util_file_def)

lemma counted_not_noise: "\<not> noise \<Longrightarrow> counted noise l \<Longrightarrow> \<not> is_noise (barcode_field l)"
  by (simp add: counted_def)

text \<open>
  Claim C4 (noise filtering), for the \<^verbatim>\<open>util.file\<close> of the specification. When
  \<^verbatim>\<open>includeNoise\<close> is false, a barcode that contains a period is a key of no worker's
  index and not of \<^verbatim>\<open>reduce_db\<close>, and no data row written carries such a barcode. When
  \<^verbatim>\<open>includeNoise\<close> is true, every barcode, with or without a period, is counted with the
  number of lines that carry it, and the output without truncation has its row.
\<close>

theorem noise_filtering:
  assumes "mset (as_completed (map (counting_worker includeNoise) tile_barcode_files))
             = mset (map (counting_worker includeNoise) tile_barcode_files)"
  shows "(\<not> includeNoise \<longrightarrow>
            (\<forall>tile \<in> set tile_barcode_files. \<forall>b. is_noise b \<longrightarrow>
                lookup_count (counting_worker includeNoise tile) b = None)
          \<and> (\<forall>b. is_noise b \<longrightarrow>
                lookup_count (reduce_db spec_util_file as_completed includeNoise tile_barcode_files) b
                  = None)
          \<and> (\<forall>r \<in> set (data_rows omitHeader
                  (count_and_sort_barcodes spec_util_file as_completed guess_index
                     tile_barcode_files barcode1_len barcode2_len truncateToLength
                     includeNoise omitHeader threads)).
                \<not> is_noise (row_barcode r)))
       \<and> (includeNoise \<longrightarrow>
            (\<forall>b. lookup_count
                    (reduce_db spec_util_file as_completed includeNoise tile_barcode_files) b
                  = (let n = length (filter (\<lambda>line. barcode_field line = b)
                                       (concat tile_barcode_files))
                     in if n = 0 then None else Some n))
          \<and> (\<forall>line \<in> set (concat tile_barcode_files).
                summary_row guess_index barcode1_len
                  (barcode_field line,
                   length (filter (\<lambda>l. barcode_field l = barcode_field line)
                             (concat tile_barcode_files)))
                \<in> set (data_rows omitHeader
                     (count_and_sort_barcodes spec_util_file as_completed guess_index
                        tile_barcode_files barcode1_len barcode2_len None
                        includeNoise omitHeader threads))))"
proof (intro conjI impI)
  assume off: "\<not> includeNoise"
  show "\<forall>tile \<in> set tile_barcode_files. \<forall>b. is_noise b \<longrightarrow>
          lookup_count (counting_worker includeNoise tile) b = None"
  proof (intro ballI allI impI)
    fix tile b
    assume "is_noise b"
    with off have "b \<notin> index_keys (counting_worker includeNoise tile)"
      by (auto simp: counting_worker_keys counted_def)
    then show "lookup_count (counting_worker includeNoise tile) b = None"
      by (simp add: lookup_count_def map_of_keys_cnt)
  qed
  have keys: "\<And>b. is_noise b \<Longrightarrow>
      b \<notin> index_keys (reduce_db spec_util_file as_completed includeNoise tile_barcode_files)"
    using off reduce_db_keys [of as_completed includeNoise tile_barcode_files, OF assms]
    by (auto simp: counted_def)
  show "\<forall>b. is_noise b \<longrightarrow>
          lookup_count (reduce_db spec_util_file as_completed includeNoise tile_barcode_files) b = None"
    using keys by (simp add: lookup_count_def map_of_keys_cnt)
  show "\<forall>r \<in> set (data_rows omitHeader
                  (count_and_sort_barcodes spec_util_file as_completed guess_index
                     tile_barcode_files barcode1_len barcode2_len truncateToLength
                     includeNoise omitHeader threads)).
                \<not> is_noise (row_barcode r)"
  proof
    fix r
    assume "r \<in> set (data_rows omitHeader
                  (count_and_sort_barcodes spec_util_file as_completed guess_index
                     tile_barcode_files barcode1_len barcode2_len truncateToLength
                     includeNoise omitHeader threads))"
    then obtain e where e: "e \<in> set (rows_kept truncateToLength (iter_sorted_desc
          (reduce_db spec_util_file as_completed includeNoise tile_barcode_files)))"
      and r: "r = summary_row guess_index barcode1_len e"
      by (auto simp: data_rows_spec)
    from e set_rows_kept have "e \<in> set (iter_sorted_desc
          (reduce_db spec_util_file as_completed includeNoise tile_barcode_files))"
      by blast
    then have mem: "e \<in> set (reduce_db spec_util_file as_completed includeNoise tile_barcode_files)"
      by (simp add: set_iter_sorted_desc)
    obtain b c where bc: "e = (b, c)" by (cases e)
    with mem have "b \<in> index_keys
        (reduce_db spec_util_file as_completed includeNoise tile_barcode_files)"
      by (force simp: index_keys_def)
    with keys have "\<not> is_noise b" by blast
    with r bc show "\<not> is_noise (row_barcode r)"
      by (simp add: row_barcode_summary_row)
  qed
next
  assume on: "includeNoise"
  have look: "\<And>b. lookup_count
                    (reduce_db spec_util_file as_completed includeNoise tile_barcode_files) b
                  = (let n = length (filter (\<lambda>line. barcode_field line = b)
                                       (concat tile_barcode_files))
                     in if n = 0 then None else Some n)"
    using on reduce_db_lookup [of as_completed includeNoise tile_barcode_files, OF assms]
    by (simp add: tally_def counted_def Let_def)
  then show "\<forall>b. lookup_count
                    (reduce_db spec_util_file as_completed includeNoise tile_barcode_files) b
                  = (let n = length (filter (\<lambda>line. barcode_field line = b)
                                       (concat tile_barcode_files))
                     in if n = 0 then None else Some n)"
    by blast
  show "\<forall>line \<in> set (concat tile_barcode_files).
                summary_row guess_index barcode1_len
                  (barcode_field line,
                   length (filter (\<lambda>l. barcode_field l = barcode_field line)
                             (concat tile_barcode_files)))
                \<in> set (data_rows omitHeader
                     (count_and_sort_barcodes spec_util_file as_completed guess_index
                        tile_barcode_files barcode1_len barcode2_len None
                        includeNoise omitHeader threads))"
  proof
    fix line
    assume line: "line \<in> set (concat tile_barcode_files)"
    let ?b = "barcode_field line"
    let ?n = "length (filter (\<lambda>l. barcode_field l = ?b) (concat tile_barcode_files))"
    from line have "filter (\<lambda>l. barcode_field l = ?b) (concat tile_barcode_files) \<noteq> []"
      by (simp only: filter_empty_conv) blast
    then have "?n \<noteq> 0" by simp
    with look [of ?b] have "lookup_count
        (reduce_db spec_util_file as_completed includeNoise tile_barcode_files) ?b = Some ?n"
      by (simp add: Let_def)
    then have "(?b, ?n) \<in> set (reduce_db spec_util_file as_completed includeNoise tile_barcode_files)"
      unfolding lookup_count_def by (rule map_of_SomeD)
    then show "summary_row guess_index barcode1_len (?b, ?n)
        \<in> set (data_rows omitHeader
             (count_and_sort_barcodes spec_util_file as_completed guess_index
                tile_barcode_files barcode1_len barcode2_len None
                includeNoise omitHeader threads))"
      by (simp add: data_rows_spec rows_kept_def set_iter_sorted_desc)
  qed
qed

text \<open>
  Witness for C4: the noise line \<^verbatim>\<open>AAAA.TTT\<close> of the worked example, with
  \<^verbatim>\<open>includeNoise\<close> false and true.
\<close>

theorem noise_filtering_witness:
  "mset (rev (map (counting_worker False) example_tile_files))
     = mset (map (counting_worker False) example_tile_files)
   \<and> mset (rev (map (counting_worker True) example_tile_files))
     = mset (map (counting_worker True) example_tile_files)
   \<and> is_noise ''AAAA.TTT''
   \<and> [''AAAA.TTT'', ''AAAATTTT''] \<in> set example_tile_files
   \<and> lookup_count (counting_worker False [''AAAA.TTT'', ''AAAATTTT'']) ''AAAA.TTT'' = None
   \<and> lookup_count (reduce_db spec_util_file rev False example_tile_files) ''AAAA.TTT'' = None
   \<and> [Text ''AAAA'', Text ''N701'', Text ''TTTT'', Text ''Unknown'', Number 3]
       \<in> set (data_rows False
           (count_and_sort_barcodes spec_util_file rev example_guess_index example_tile_files
              4 8 None False False None))
   \<and> \<not> is_noise (row_barcode
         [Text ''AAAA'', Text ''N701'', Text ''TTTT'', Text ''Unknown'', Number 3])
   \<and> lookup_count (reduce_db spec_util_file rev True example_tile_files) ''AAAA.TTT'' = Some 1
   \<and> ''AAAA.TTT'' \<in> set (concat example_tile_files)
   \<and> [Text ''AAAA'', Text ''N701'', Text ''.TTT'', Text ''Unknown'', Number 1]
       \<in> set (data_rows False
           (count_and_sort_barcodes spec_util_file rev example_guess_index example_tile_files
              4 8 None True False None))"
proof -
  have h1: "mset (rev (map (counting_worker False) example_tile_files))
     = mset (map (counting_worker False) example_tile_files)"
    by simp
  have h2: "mset (rev (map (counting_worker True) example_tile_files))
     = mset (map (counting_worker True) example_tile_files)"
    by simp
  have n: "is_noise ''AAAA.TTT''" by (simp add: is_noise_def)
  have tile: "[''AAAA.TTT'', ''AAAATTTT''] \<in> set example_tile_files"
    by (simp add: example_tile_files_def)
  have line: "''AAAA.TTT'' \<in> set (concat example_tile_files)"
    by (simp add: example_tile_files_def)
  have row: "[Text ''AAAA'', Text ''N701'', Text ''TTTT'', Text ''Unknown'', Number 3]
       \<in> set (data_rows False
           (count_and_sort_barcodes spec_util_file rev example_guess_index example_tile_files
              4 8 None False False None))"
    by (simp add: example_output data_rows_def)
  note off = noise_filtering [of rev False example_tile_files False example_guess_index
      4 8 None None, OF h1]
  note on = noise_filtering [of rev True example_tile_files False example_guess_index
      4 8 None None, OF h2]
  from off tile n
  have a: "lookup_count (counting_worker False [''AAAA.TTT'', ''AAAATTTT'']) ''AAAA.TTT'' = None"
    by blast
  from off n
  have b: "lookup_count (reduce_db spec_util_file rev False example_tile_files) ''AAAA.TTT'' = None"
    by blast
  from off row
  have c: "\<not> is_noise (row_barcode
         [Text ''AAAA'', Text ''N701'', Text ''TTTT'', Text ''Unknown'', Number 3])"
    by blast
  have e1: "(let n = length (filter (\<lambda>line. barcode_field line = ''AAAA.TTT'')
                                       (concat example_tile_files))
                     in if n = 0 then None else Some n) = Some 1"
    by code_simp
  from on e1
  have d: "lookup_count (reduce_db spec_util_file rev True example_tile_files) ''AAAA.TTT'' = Some 1"
    by simp
  have e2: "summary_row example_guess_index 4
                  (barcode_field ''AAAA.TTT'',
                   length (filter (\<lambda>l. barcode_field l = barcode_field ''AAAA.TTT'')
                             (concat example_tile_files)))
      = [Text ''AAAA'', Text ''N701'', Text ''.TTT'', Text ''Unknown'', Number 1]"
    by code_simp
  from on line have "summary_row example_guess_index 4
                  (barcode_field ''AAAA.TTT'',
                   length (filter (\<lambda>l. barcode_field l = barcode_field ''AAAA.TTT'')
                             (concat example_tile_files)))
       \<in> set (data_rows False
           (count_and_sort_barcodes spec_util_file rev example_guess_index example_tile_files
              4 8 None True False None))"
    by blast
  with e2 have e: "[Text ''AAAA'', Text ''N701'', Text ''.TTT'', Text ''Unknown'', Number 1]
       \<in> set (data_rows False
           (count_and_sort_barcodes spec_util_file rev example_guess_index example_tile_files
              4 8 None True False None))"
    by simp
  from h1 h2 n tile a b row c d line e show ?thesis by (intro conjI)
qed

section \<open>Properties of the guess for one sample\<close>

lemma most_abundant_None: "most_abundant rs = None \<longleftrightarrow> rs = []"
  by (induction rs) (auto split: option.splits)

lemma most_abundant_Some:
  "most_abundant rs = Some m \<Longrightarrow> m \<in> set rs \<and> (\<forall>q \<in> set rs. read_count q \<le> read_count m)"
proof (induction rs arbitrary: m)
  case Nil
  then show ?case by simp
next
  case (Cons r rs)
  show ?case
  proof (cases "most_abundant rs")
    case None
    then have "rs = []" by (simp add: most_abundant_None)
    with Cons.prems None show ?thesis by simp
  next
    case (Some m')
    from Cons.IH [OF Some] have m': "m' \<in> set rs" "\<forall>q \<in> set rs. read_count q \<le> read_count m'"
      by simp_all
    show ?thesis
    proof (cases "read_count r < read_count m'")
      case True
      with Cons.prems Some have "m = m'" by simp
      with m' True show ?thesis by auto
    next
      case False
      with Cons.prems Some have "m = r" by simp
      with m' False show ?thesis by fastforce
    qed
  qed
qed

text \<open>
  Claim C5 (partial-match preference), for the guesser of the specification. If a novel
  pair shares exactly one barcode with the sample's expected pair, the guess is a
  partial match of the highest count among the partial matches, with match type
  \<^verbatim>\<open>partial\<close>, whatever the counts of the other novel pairs. If no novel pair is a partial
  match, the guess is a novel pair of the highest count overall. With no novel pair
  there is no guess.
\<close>

theorem partial_match_preference:
  "((\<exists>r \<in> set (novel_barcode_pairs limit metrics table). partial_match s r) \<longrightarrow>
      (\<exists>r \<in> set (novel_barcode_pairs limit metrics table).
          partial_match s r
        \<and> (\<forall>q \<in> set (novel_barcode_pairs limit metrics table).
              partial_match s q \<longrightarrow> read_count q \<le> read_count r)
        \<and> guess_for_sample (novel_barcode_pairs limit metrics table) s
            = Some \<lparr> guessed_barcode_1 = barcode_1 r, guessed_barcode_2 = barcode_2 r,
                     guessed_read_count = read_count r, guess_match_type = Partial \<rparr>))
   \<and> ((\<forall>r \<in> set (novel_barcode_pairs limit metrics table). \<not> partial_match s r)
        \<and> novel_barcode_pairs limit metrics table \<noteq> [] \<longrightarrow>
      (\<exists>r \<in> set (novel_barcode_pairs limit metrics table).
          (\<forall>q \<in> set (novel_barcode_pairs limit metrics table). read_count q \<le> read_count r)
        \<and> guess_for_sample (novel_barcode_pairs limit metrics table) s
            = Some \<lparr> guessed_barcode_1 = barcode_1 r, guessed_barcode_2 = barcode_2 r,
                     guessed_read_count = read_count r, guess_match_type = NoMatch \<rparr>))
   \<and> (novel_barcode_pairs limit metrics table = [] \<longrightarrow>
        guess_for_sample (novel_barcode_pairs limit metrics table) s = None)"
proof (intro conjI impI)
  let ?novel = "novel_barcode_pairs limit metrics table"
  assume "\<exists>r \<in> set ?novel. partial_match s r"
  then have "filter (partial_match s) ?novel \<noteq> []" by (auto simp: filter_empty_conv)
  then obtain m where m: "most_abundant (filter (partial_match s) ?novel) = Some m"
    using most_abundant_None by fastforce
  from most_abundant_Some [OF m]
  have "m \<in> set ?novel" "partial_match s m"
    "\<forall>q \<in> set ?novel. partial_match s q \<longrightarrow> read_count q \<le> read_count m"
    by auto
  moreover from m have "guess_for_sample ?novel s
      = Some \<lparr> guessed_barcode_1 = barcode_1 m, guessed_barcode_2 = barcode_2 m,
               guessed_read_count = read_count m, guess_match_type = Partial \<rparr>"
    by (simp add: guess_for_sample_def)
  ultimately show "\<exists>r \<in> set ?novel. partial_match s r
        \<and> (\<forall>q \<in> set ?novel. partial_match s q \<longrightarrow> read_count q \<le> read_count r)
        \<and> guess_for_sample ?novel s
            = Some \<lparr> guessed_barcode_1 = barcode_1 r, guessed_barcode_2 = barcode_2 r,
                     guessed_read_count = read_count r, guess_match_type = Partial \<rparr>"
    by blast
next
  let ?novel = "novel_barcode_pairs limit metrics table"
  assume a: "(\<forall>r \<in> set ?novel. \<not> partial_match s r) \<and> ?novel \<noteq> []"
  then have none: "most_abundant (filter (partial_match s) ?novel) = None"
    by (simp add: most_abundant_None filter_empty_conv)
  from a obtain m where m: "most_abundant ?novel = Some m"
    using most_abundant_None by fastforce
  from most_abundant_Some [OF m]
  have "m \<in> set ?novel" "\<forall>q \<in> set ?novel. read_count q \<le> read_count m"
    by auto
  moreover from none m have "guess_for_sample ?novel s
      = Some \<lparr> guessed_barcode_1 = barcode_1 m, guessed_barcode_2 = barcode_2 m,
               guessed_read_count = read_count m, guess_match_type = NoMatch \<rparr>"
    by (simp add: guess_for_sample_def)
  ultimately show "\<exists>r \<in> set ?novel.
          (\<forall>q \<in> set ?novel. read_count q \<le> read_count r)
        \<and> guess_for_sample ?novel s
            = Some \<lparr> guessed_barcode_1 = barcode_1 r, guessed_barcode_2 = barcode_2 r,
                     guessed_read_count = read_count r, guess_match_type = NoMatch \<rparr>"
    by blast
next
  assume "novel_barcode_pairs limit metrics table = []"
  then show "guess_for_sample (novel_barcode_pairs limit metrics table) s = None"
    by (simp add: guess_for_sample_def)
qed

text \<open>
  Witness for C5: the scenario of the specification. The guess for the sample expected
  under (X, Y) is the partial match (X, Z) with count 50, although the novel pair (W, V)
  has count 200.
\<close>

theorem partial_match_preference_witness:
  "(\<exists>r \<in> set (novel_barcode_pairs 1000 example_metrics example_table).
       partial_match example_sample r)
   \<and> (\<exists>q \<in> set (novel_barcode_pairs 1000 example_metrics example_table).
        \<not> partial_match example_sample q \<and> 50 < read_count q)
   \<and> guess_for_sample (novel_barcode_pairs 1000 example_metrics example_table) example_sample
       = Some \<lparr> guessed_barcode_1 = ''X'', guessed_barcode_2 = ''Z'',
                guessed_read_count = 50, guess_match_type = Partial \<rparr>"
proof -
  have nov: "novel_barcode_pairs 1000 example_metrics example_table
      = [\<lparr> barcode_1 = ''W'', likely_names_1 = ''Unknown'', barcode_2 = ''V'',
            likely_names_2 = ''Unknown'', read_count = 200 \<rparr>,
         \<lparr> barcode_1 = ''X'', likely_names_1 = ''Unknown'', barcode_2 = ''Z'',
            likely_names_2 = ''Unknown'', read_count = 50 \<rparr>]"
    by code_simp
  have s: "example_sample
      = \<lparr> sample_name = ''sample1'', expected_barcode_1 = ''X'', expected_barcode_2 = ''Y'',
          expected_read_count = 3 \<rparr>"
    by (simp add: example_sample_def)
  have h: "\<exists>r \<in> set (novel_barcode_pairs 1000 example_metrics example_table).
       partial_match example_sample r"
    by (simp add: nov s partial_match_def)
  have o: "\<exists>q \<in> set (novel_barcode_pairs 1000 example_metrics example_table).
        \<not> partial_match example_sample q \<and> 50 < read_count q"
    by (simp add: nov s partial_match_def)
  from partial_match_preference [of 1000 example_metrics example_table example_sample] h
  obtain r where r: "r \<in> set (novel_barcode_pairs 1000 example_metrics example_table)"
    "partial_match example_sample r"
    "guess_for_sample (novel_barcode_pairs 1000 example_metrics example_table) example_sample
       = Some \<lparr> guessed_barcode_1 = barcode_1 r, guessed_barcode_2 = barcode_2 r,
                guessed_read_count = read_count r, guess_match_type = Partial \<rparr>"
    by blast
  from r(1,2) have "r = \<lparr> barcode_1 = ''X'', likely_names_1 = ''Unknown'', barcode_2 = ''Z'',
            likely_names_2 = ''Unknown'', read_count = 50 \<rparr>"
    by (auto simp: nov s partial_match_def)
  with r(3) have "guess_for_sample (novel_barcode_pairs 1000 example_metrics example_table)
       example_sample
       = Some \<lparr> guessed_barcode_1 = ''X'', guessed_barcode_2 = ''Z'',
                guessed_read_count = 50, guess_match_type = Partial \<rparr>"
    by simp
  with h o show ?thesis by (intro conjI)
qed

end
